theory Spec2Isabelle
  imports Main "HOL-Library.Word" "HOL-Library.Sublist"
begin

unbundle bit_operations_syntax

section \<open>Machine types and the socket model\<close>

text \<open>
  C strings are modelled as \<open>string\<close> (a list of 8-bit characters) holding the bytes
  before the terminating NUL; raw byte buffers of the HTTP/2 code are lists of
  \<open>8 word\<close>. \<open>uint32_t\<close> is \<open>32 word\<close>.
\<close>

type_synonym u8 = "8 word"
type_synonym u32 = "32 word"

text \<open>
  A connected socket as the framing code sees it: the bytes the peer has sent and that
  are still unread (\<open>rx\<close>), the bytes written so far (\<open>tx\<close>) and the number of bytes
  the kernel send buffer still accepts (\<open>tx_room\<close>).
\<close>

record socket_state =
  rx :: "u8 list"
  tx :: "u8 list"
  tx_room :: nat

text \<open>
  \<open>send(2)\<close> on a non-blocking socket: \<open>-1\<close> when nothing can be queued, else the
  number of bytes queued, which may be less than asked for.
\<close>

definition send_sock :: "socket_state \<Rightarrow> u8 list \<Rightarrow> int \<times> socket_state" where
  "send_sock s bs =
     (if bs \<noteq> [] \<and> tx_room s = 0 then (-1, s)
      else let n = min (length bs) (tx_room s)
           in (int n, s\<lparr>tx := tx s @ take n bs, tx_room := tx_room s - n\<rparr>))"

text \<open>
  \<open>recv(2)\<close> of at most \<open>n\<close> bytes: \<open>-1\<close> when nothing is pending; with \<open>MSG_PEEK\<close>
  the bytes stay in the queue.
\<close>

definition recv_sock :: "socket_state \<Rightarrow> nat \<Rightarrow> bool \<Rightarrow> int \<times> u8 list \<times> socket_state" where
  "recv_sock s n peek =
     (if rx s = [] then (-1, [], s)
      else let d = take n (rx s)
           in (int (length d), d, if peek then s else s\<lparr>rx := drop n (rx s)\<rparr>))"

section \<open>HTTP/2 framing (http2.c)\<close>

definition HTTP2_PREFACE_LEN :: nat where
  "HTTP2_PREFACE_LEN = 24"

definition HTTP2_PREFACE :: "u8 list" where
  "HTTP2_PREFACE = map of_char
     (''PRI * HTTP/2.0'' @ [CHR 0x0D, CHR 0x0A, CHR 0x0D, CHR 0x0A] @ ''SM''
        @ [CHR 0x0D, CHR 0x0A, CHR 0x0D, CHR 0x0A])"

datatype HTTP2_FRAME_TYPE =
    HTTP2_FRAME_DATA
  | HTTP2_FRAME_HEADERS
  | HTTP2_FRAME_PRIORITY
  | HTTP2_FRAME_RST_STREAM
  | HTTP2_FRAME_SETTINGS
  | HTTP2_FRAME_PUSH_PROMISE
  | HTTP2_FRAME_PING
  | HTTP2_FRAME_GOAWAY
  | HTTP2_FRAME_WINDOW_UPDATE
  | HTTP2_FRAME_CONTINUATION

text \<open>The enumerators' values, as http2.h assigns them.\<close>

fun frame_type_value :: "HTTP2_FRAME_TYPE \<Rightarrow> int" where
  "frame_type_value HTTP2_FRAME_DATA = 0x0"
| "frame_type_value HTTP2_FRAME_HEADERS = 0x1"
| "frame_type_value HTTP2_FRAME_PRIORITY = 0x2"
| "frame_type_value HTTP2_FRAME_RST_STREAM = 0x3"
| "frame_type_value HTTP2_FRAME_SETTINGS = 0x4"
| "frame_type_value HTTP2_FRAME_PUSH_PROMISE = 0x5"
| "frame_type_value HTTP2_FRAME_PING = 0x6"
| "frame_type_value HTTP2_FRAME_GOAWAY = 0x7"
| "frame_type_value HTTP2_FRAME_WINDOW_UPDATE = 0x8"
| "frame_type_value HTTP2_FRAME_CONTINUATION = 0x9"

definition HTTP2_FLAG_NONE :: u8 where "HTTP2_FLAG_NONE = 0x0"
definition HTTP2_FLAG_ACK :: u8 where "HTTP2_FLAG_ACK = 0x1"

definition HTTP2_SETTINGS_HEADER_TABLE_SIZE :: u8 where
  "HTTP2_SETTINGS_HEADER_TABLE_SIZE = 0x1"
definition HTTP2_SETTINGS_ENABLE_PUSH :: u8 where
  "HTTP2_SETTINGS_ENABLE_PUSH = 0x2"
definition HTTP2_SETTINGS_MAX_CONCURRENT_STREAMS :: u8 where
  "HTTP2_SETTINGS_MAX_CONCURRENT_STREAMS = 0x3"
definition HTTP2_SETTINGS_INITIAL_WINDOW_SIZE :: u8 where
  "HTTP2_SETTINGS_INITIAL_WINDOW_SIZE = 0x4"
definition HTTP2_SETTINGS_MAX_FRAME_SIZE :: u8 where
  "HTTP2_SETTINGS_MAX_FRAME_SIZE = 0x5"
definition HTTP2_SETTINGS_MAX_HEADER_LIST_SIZE :: u8 where
  "HTTP2_SETTINGS_MAX_HEADER_LIST_SIZE = 0x6"

text \<open>\<open>HTTP2_FRAME_HEADER\<close>; the fields \<open>length\<close> and \<open>type\<close> carry a suffix here.\<close>

record HTTP2_FRAME_HEADER =
  length_hdr :: u32
  type_hdr :: u8
  flags_hdr :: u8
  stream_id :: u32

text \<open>
  \<open>HTTP2_CONNECTION\<close> without its stream table, which none of the functions below
  reads. \<open>socket\<close> holds the state of the descriptor the C field names.
\<close>

record HTTP2_CONNECTION =
  socket :: socket_state
  is_http2 :: int
  preface_received :: int
  local_settings :: "u32 list"
  remote_settings :: "u32 list"
  next_stream_id :: u32
  last_stream_id :: u32

definition default_settings :: "u32 list" where
  "default_settings = [0, 4096, 1, 100, 65535, 16384, 8192]"

text \<open>\<open>http2_connection_create\<close>, with both allocations succeeding.\<close>

definition http2_connection_create :: "socket_state \<Rightarrow> HTTP2_CONNECTION" where
  "http2_connection_create sock =
     \<lparr>socket = sock, is_http2 = 0, preface_received = 0,
      local_settings = default_settings, remote_settings = default_settings,
      next_stream_id = 2, last_stream_id = 0\<rparr>"

text \<open>
  \<open>http2_parse_frame_header\<close>. \<open>None\<close> for \<open>data\<close> is the NULL pointer (result \<open>-1\<close>,
  header untouched). The C function reads \<open>data[0..8]\<close> unchecked; a buffer of fewer
  than nine bytes is outside its contract and gives \<open>-1\<close> here as well.
\<close>

definition http2_parse_frame_header :: "u8 list option \<Rightarrow> int \<times> HTTP2_FRAME_HEADER option" where
  "http2_parse_frame_header data =
     (case data of
        None \<Rightarrow> (-1, None)
      | Some d \<Rightarrow>
          if length d < 9 then (-1, None)
          else (0, Some
            \<lparr>length_hdr = push_bit 16 (ucast (d ! 0)) OR push_bit 8 (ucast (d ! 1)) OR ucast (d ! 2),
             type_hdr = d ! 3,
             flags_hdr = d ! 4,
             stream_id = push_bit 24 (ucast ((d ! 5) AND 0x7F)) OR push_bit 16 (ucast (d ! 6))
                           OR push_bit 8 (ucast (d ! 7)) OR ucast (d ! 8)\<rparr>))"

text \<open>The local array \<open>header[9]\<close> that \<open>http2_send_frame\<close> fills in.\<close>

definition frame_header_bytes :: "HTTP2_FRAME_TYPE \<Rightarrow> u8 \<Rightarrow> u32 \<Rightarrow> u32 \<Rightarrow> u8 list" where
  "frame_header_bytes type flags sid len =
     [ucast (drop_bit 16 len AND 0xFF),
      ucast (drop_bit 8 len AND 0xFF),
      ucast (len AND 0xFF),
      word_of_int (frame_type_value type),
      flags,
      ucast (drop_bit 24 sid AND 0x7F),
      ucast (drop_bit 16 sid AND 0xFF),
      ucast (drop_bit 8 sid AND 0xFF),
      ucast (sid AND 0xFF)]"

text \<open>
  \<open>http2_send_frame\<close>: the header first, then \<open>length\<close> bytes of the payload when there
  is one. A short or failed \<open>send\<close> gives \<open>-1\<close>.
\<close>

definition http2_send_frame ::
  "HTTP2_CONNECTION option \<Rightarrow> HTTP2_FRAME_TYPE \<Rightarrow> u8 \<Rightarrow> u32 \<Rightarrow> u8 list option \<Rightarrow> u32
     \<Rightarrow> int \<times> HTTP2_CONNECTION option" where
  "http2_send_frame conn type flags sid payload len =
     (case conn of
        None \<Rightarrow> (-1, None)
      | Some c \<Rightarrow>
          let (n, s1) = send_sock (socket c) (frame_header_bytes type flags sid len)
          in if n \<noteq> 9 then (-1, Some (c\<lparr>socket := s1\<rparr>))
             else (case payload of
                     None \<Rightarrow> (0, Some (c\<lparr>socket := s1\<rparr>))
                   | Some p \<Rightarrow>
                       if 0 < len then
                         (let (m, s2) = send_sock s1 (take (unat len) p)
                          in if m \<noteq> int (unat len) then (-1, Some (c\<lparr>socket := s2\<rparr>))
                             else (0, Some (c\<lparr>socket := s2\<rparr>)))
                       else (0, Some (c\<lparr>socket := s1\<rparr>))))"

text \<open>One six-byte entry of the SETTINGS payload: identifier, then the value big-endian.\<close>

definition setting_entry :: "u8 \<Rightarrow> u32 \<Rightarrow> u8 list" where
  "setting_entry ident v =
     [0, ident,
      ucast (drop_bit 24 v AND 0xFF),
      ucast (drop_bit 16 v AND 0xFF),
      ucast (drop_bit 8 v AND 0xFF),
      ucast (v AND 0xFF)]"

definition http2_send_settings :: "HTTP2_CONNECTION option \<Rightarrow> int \<Rightarrow> int \<times> HTTP2_CONNECTION option" where
  "http2_send_settings conn ack =
     (case conn of
        None \<Rightarrow> (-1, None)
      | Some c \<Rightarrow>
          if ack \<noteq> 0 then
            http2_send_frame conn HTTP2_FRAME_SETTINGS HTTP2_FLAG_ACK 0 None 0
          else
            (let payload =
                   setting_entry HTTP2_SETTINGS_HEADER_TABLE_SIZE (local_settings c ! 1)
                 @ setting_entry HTTP2_SETTINGS_ENABLE_PUSH (local_settings c ! 2)
                 @ setting_entry HTTP2_SETTINGS_MAX_CONCURRENT_STREAMS (local_settings c ! 3)
                 @ setting_entry HTTP2_SETTINGS_INITIAL_WINDOW_SIZE (local_settings c ! 4)
                 @ setting_entry HTTP2_SETTINGS_MAX_FRAME_SIZE (local_settings c ! 5)
                 @ setting_entry HTTP2_SETTINGS_MAX_HEADER_LIST_SIZE (local_settings c ! 6)
             in http2_send_frame conn HTTP2_FRAME_SETTINGS HTTP2_FLAG_NONE 0 (Some payload)
                  (of_nat (length payload))))"

text \<open>
  \<open>http2_handle_connection\<close>: peek at the next 24 bytes; when they are the preface,
  consume them, mark the connection and send the initial SETTINGS frame (whose result
  the C code ignores); otherwise \<open>-1\<close>.
\<close>

definition http2_handle_connection :: "HTTP2_CONNECTION option \<Rightarrow> int \<times> HTTP2_CONNECTION option" where
  "http2_handle_connection conn =
     (case conn of
        None \<Rightarrow> (-1, None)
      | Some c \<Rightarrow>
          let (bytes, buffer, s0) = recv_sock (socket c) HTTP2_PREFACE_LEN True
          in if bytes = int HTTP2_PREFACE_LEN \<and> buffer = HTTP2_PREFACE then
               (let (k, b1, s1) = recv_sock s0 HTTP2_PREFACE_LEN False;
                    c1 = c\<lparr>socket := s1, is_http2 := 1, preface_received := 1\<rparr>;
                    (r, c2) = http2_send_settings (Some c1) 0
                in (0, c2))
             else (-1, Some (c\<lparr>socket := s0\<rparr>)))"

text \<open>
  The bytes a call has written to the connection's socket: what \<open>tx\<close> holds after the
  call beyond what it held before.
\<close>

definition bytes_sent :: "HTTP2_CONNECTION \<Rightarrow> HTTP2_CONNECTION option \<Rightarrow> u8 list" where
  "bytes_sent c res =
     (case res of None \<Rightarrow> [] | Some c' \<Rightarrow> drop (length (tx (socket c))) (tx (socket c')))"

text \<open>
  The initial SETTINGS frame as it appears on the wire: a nine-byte header (length 36,
  type 4, no flags, stream 0) and six entries, HEADER_TABLE_SIZE = 4096 (0x1000),
  ENABLE_PUSH = 1, MAX_CONCURRENT_STREAMS = 100, INITIAL_WINDOW_SIZE = 65535 (0xFFFF),
  MAX_FRAME_SIZE = 16384 (0x4000) and MAX_HEADER_LIST_SIZE = 8192 (0x2000).
\<close>

definition initial_settings_frame :: "u8 list" where
  "initial_settings_frame =
     [0, 0, 36, 4, 0, 0, 0, 0, 0,
      0, 1, 0, 0, 16, 0,
      0, 2, 0, 0, 0, 1,
      0, 3, 0, 0, 0, 100,
      0, 4, 0, 0, 255, 255,
      0, 5, 0, 0, 64, 0,
      0, 6, 0, 0, 32, 0]"

section \<open>HTTP/1.1 data model (http_server.h)\<close>

datatype HTTP_METHOD =
    HTTP_METHOD_GET
  | HTTP_METHOD_POST
  | HTTP_METHOD_PUT
  | HTTP_METHOD_DELETE
  | HTTP_METHOD_PATCH
  | HTTP_METHOD_HEAD
  | HTTP_METHOD_OPTIONS
  | HTTP_METHOD_UNKNOWN

definition HTTP_STATUS_OK :: int where "HTTP_STATUS_OK = 200"
definition HTTP_STATUS_FORBIDDEN :: int where "HTTP_STATUS_FORBIDDEN = 403"
definition HTTP_STATUS_NOT_FOUND :: int where "HTTP_STATUS_NOT_FOUND = 404"
definition HTTP_STATUS_INTERNAL_ERROR :: int where "HTTP_STATUS_INTERNAL_ERROR = 500"

definition CRLF :: string where
  "CRLF = [CHR 0x0D, CHR 0x0A]"

text \<open>The content of a NUL-terminated buffer read as a C string.\<close>

definition c_str :: "string \<Rightarrow> string" where
  "c_str buf = takeWhile (\<lambda>c. c \<noteq> CHR 0x00) buf"

text \<open>\<open>strstr(haystack, needle) != NULL\<close>.\<close>

fun strstr_found :: "string \<Rightarrow> string \<Rightarrow> bool" where
  "strstr_found [] needle = (needle = [])"
| "strstr_found (c # cs) needle = (prefix needle (c # cs) \<or> strstr_found cs needle)"

text \<open>
  \<open>HTTP_REQUEST\<close> and \<open>HTTP_RESPONSE\<close>. Headers and parameters are kept in insertion
  order; a \<open>name[128]\<close> field holds at most 127 characters and a \<open>value[512]\<close> field at
  most 511. The capacity fields, which only steer reallocation, are left out: memory
  allocation is taken to succeed throughout. The functions of http_server.c and
  http_route.c are modelled on valid objects and strings: their guards against NULL
  arguments, which return an error code and change nothing, have no counterpart here.
\<close>

record HTTP_REQUEST =
  req_method :: HTTP_METHOD
  req_path :: string
  query_string :: string
  http_version :: string
  req_headers :: "(string \<times> string) list"
  req_body :: string
  path_params :: "(string \<times> string) list"
  query_params :: "(string \<times> string) list"

text \<open>
  The header table of a response starts with room for ten headers from \<open>calloc\<close>, so
  its first ten slots are zero-filled; every later slot comes from \<open>realloc\<close> and is not
  cleared. \<open>strncpy\<close> copies at most 127 bytes of a name and 511 of a value and writes a
  terminator only when the string is shorter than that. A name of 127 bytes or more, or
  a value of 511 or more, stored in the eleventh or a later slot is therefore left
  without its terminator: the field holds no C string, and what a reader of it sees is
  indeterminate. \<open>headers_terminated\<close>, which is not a field of the C structure, is
  \<open>True\<close> as long as that has not happened; \<open>headers\<close> lists, per slot, the bytes that
  were copied, which for the first ten slots are always the stored strings.
\<close>

record HTTP_RESPONSE =
  status :: int
  status_message :: string
  headers :: "(string \<times> string) list"
  body :: string
  headers_terminated :: bool

type_synonym http_route_handler_fn = "HTTP_REQUEST \<Rightarrow> HTTP_RESPONSE \<Rightarrow> HTTP_RESPONSE"

text \<open>\<open>HTTP_ROUTE\<close>; its field \<open>method\<close> carries a suffix here.\<close>

record HTTP_ROUTE =
  method_route :: HTTP_METHOD
  path :: string
  handler :: "http_route_handler_fn option"

definition http_request_create :: HTTP_REQUEST where
  "http_request_create =
     \<lparr>req_method = HTTP_METHOD_UNKNOWN, req_path = [], query_string = [], http_version = [],
      req_headers = [], req_body = [], path_params = [], query_params = []\<rparr>"

text \<open>
  The parameter tables of a request start with room for 10 path parameters and 20
  query parameters from \<open>calloc\<close>; the two functions below give what is stored in those
  slots.
\<close>

definition http_request_add_path_param :: "HTTP_REQUEST \<Rightarrow> string \<Rightarrow> string \<Rightarrow> HTTP_REQUEST" where
  "http_request_add_path_param request name val =
     request\<lparr>path_params := path_params request @ [(take 127 name, take 511 val)]\<rparr>"

definition http_request_add_query_param :: "HTTP_REQUEST \<Rightarrow> string \<Rightarrow> string \<Rightarrow> HTTP_REQUEST" where
  "http_request_add_query_param request name val =
     request\<lparr>query_params := query_params request @ [(take 127 name, take 511 val)]\<rparr>"

fun http_status_to_string :: "int \<Rightarrow> string" where
  "http_status_to_string st =
     (if st = 200 then ''OK''
      else if st = 201 then ''Created''
      else if st = 202 then ''Accepted''
      else if st = 204 then ''No Content''
      else if st = 400 then ''Bad Request''
      else if st = 401 then ''Unauthorized''
      else if st = 403 then ''Forbidden''
      else if st = 404 then ''Not Found''
      else if st = 405 then ''Method Not Allowed''
      else if st = 500 then ''Internal Server Error''
      else if st = 501 then ''Not Implemented''
      else if st = 503 then ''Service Unavailable''
      else ''Unknown'')"

definition INITIAL_HEADER_CAPACITY :: nat where
  "INITIAL_HEADER_CAPACITY = 10"

definition http_response_add_header :: "HTTP_RESPONSE \<Rightarrow> string \<Rightarrow> string \<Rightarrow> HTTP_RESPONSE" where
  "http_response_add_header response name val =
     response\<lparr>headers := headers response @ [(take 127 name, take 511 val)],
               headers_terminated :=
                 (headers_terminated response
                  \<and> (length (headers response) < INITIAL_HEADER_CAPACITY
                       \<or> (length name < 127 \<and> length val < 511)))\<rparr>"

definition http_response_create :: HTTP_RESPONSE where
  "http_response_create =
     http_response_add_header
       (http_response_add_header
          \<lparr>status = HTTP_STATUS_OK, status_message = ''OK'', headers = [], body = [],
            headers_terminated = True\<rparr>
          ''Server'' ''Equinox/1.0 (HTTP/1.1, HTTP/2)'')
       ''Connection'' ''close''"

definition http_response_set_status :: "HTTP_RESPONSE \<Rightarrow> int \<Rightarrow> HTTP_RESPONSE" where
  "http_response_set_status response st =
     response\<lparr>status := st, status_message := take 127 (http_status_to_string st)\<rparr>"

text \<open>\<open>http_response_set_body\<close> copies \<open>length\<close> bytes; the argument here is those bytes.\<close>

definition http_response_set_body :: "HTTP_RESPONSE \<Rightarrow> string \<Rightarrow> HTTP_RESPONSE" where
  "http_response_set_body response b = response\<lparr>body := b\<rparr>"

definition http_response_set_json :: "HTTP_RESPONSE \<Rightarrow> string \<Rightarrow> HTTP_RESPONSE" where
  "http_response_set_json response json =
     http_response_set_body (http_response_add_header response ''Content-Type'' ''application/json'') json"

definition http_response_set_text :: "HTTP_RESPONSE \<Rightarrow> string \<Rightarrow> HTTP_RESPONSE" where
  "http_response_set_text response text =
     http_response_set_body (http_response_add_header response ''Content-Type'' ''text/plain'') text"

text \<open>
  What a handler can do to the response through the functions of http_server.h, and
  the headers each call appends.
\<close>

datatype response_call =
    Add_header string string
  | Set_status int
  | Set_body string
  | Set_json string
  | Set_text string

fun apply_call :: "HTTP_RESPONSE \<Rightarrow> response_call \<Rightarrow> HTTP_RESPONSE" where
  "apply_call r (Add_header name val) = http_response_add_header r name val"
| "apply_call r (Set_status st) = http_response_set_status r st"
| "apply_call r (Set_body b) = http_response_set_body r b"
| "apply_call r (Set_json json) = http_response_set_json r json"
| "apply_call r (Set_text text) = http_response_set_text r text"

fun appended_headers :: "response_call \<Rightarrow> (string \<times> string) list" where
  "appended_headers (Add_header name val) = [(take 127 name, take 511 val)]"
| "appended_headers (Set_status st) = []"
| "appended_headers (Set_body b) = []"
| "appended_headers (Set_json json) = [(''Content-Type'', ''application/json'')]"
| "appended_headers (Set_text text) = [(''Content-Type'', ''text/plain'')]"

section \<open>Route matching (http_route.c)\<close>

text \<open>\<open>if (*ptr == '/') ptr++\<close>.\<close>

fun skip_slash :: "string \<Rightarrow> string" where
  "skip_slash [] = []"
| "skip_slash (c # cs) = (if c = CHR ''/'' then cs else c # cs)"

text \<open>
  The length of the current segment: up to the next \<open>'/'\<close>, or to the end of the
  string when there is none.
\<close>

definition segment_len :: "string \<Rightarrow> nat" where
  "segment_len s = length (takeWhile (\<lambda>c. c \<noteq> CHR ''/'') s)"

lemma segment_len_le: "segment_len s \<le> length s"
  by (simp add: segment_len_def length_takeWhile_le)

lemma skip_slash_le: "length (skip_slash s) \<le> length s"
  by (cases s) simp_all

lemma segment_advance: "s \<noteq> [] \<Longrightarrow> length (skip_slash (drop (segment_len s) s)) < length s"
proof (cases s)
  case Nil
  then show "s \<noteq> [] \<Longrightarrow> ?thesis" by simp
next
  case (Cons c cs)
  show ?thesis
  proof (cases "c = CHR ''/''")
    case True
    with Cons show ?thesis by (simp add: segment_len_def)
  next
    case False
    with Cons have "0 < segment_len s"
      by (simp add: segment_len_def)
    then have "length (drop (segment_len s) s) < length s"
      using Cons by simp
    then show ?thesis
      using skip_slash_le [of "drop (segment_len s) s"] by linarith
  qed
qed

text \<open>The \<open>while (*pattern_ptr && *path_ptr)\<close> loop of \<open>http_route_matches\<close> and its final test.\<close>

function match_segments :: "string \<Rightarrow> string \<Rightarrow> bool" where
  "match_segments pattern_ptr path_ptr =
     (if pattern_ptr \<noteq> [] \<and> path_ptr \<noteq> [] then
        (let pattern_len = segment_len pattern_ptr;
             path_len = segment_len path_ptr
         in if hd pattern_ptr \<noteq> CHR '':''
                 \<and> (pattern_len \<noteq> path_len
                      \<or> take pattern_len pattern_ptr \<noteq> take pattern_len path_ptr)
            then False
            else match_segments (skip_slash (drop pattern_len pattern_ptr))
                                (skip_slash (drop path_len path_ptr)))
      else pattern_ptr = [] \<and> path_ptr = [])"
  by pat_completeness auto
termination
  by (relation "measure (\<lambda>(pattern_ptr, path_ptr). length pattern_ptr)")
     (auto simp add: segment_advance)

declare match_segments.simps [simp del]

definition http_route_matches :: "HTTP_ROUTE \<Rightarrow> HTTP_METHOD \<Rightarrow> string \<Rightarrow> bool" where
  "http_route_matches route m p =
     (if method_route route \<noteq> m then False
      else if path route = p then True
      else if CHR '':'' \<notin> set (path route) then False
      else match_segments (skip_slash (path route)) (skip_slash p))"

text \<open>
  The loop of \<open>http_route_extract_params\<close>. The C code clamps \<open>path_len\<close> itself to 511
  before advancing \<open>path_ptr\<close> by it; the name length has a variable of its own.
\<close>

function extract_segments :: "string \<Rightarrow> string \<Rightarrow> HTTP_REQUEST \<Rightarrow> HTTP_REQUEST" where
  "extract_segments pattern_ptr path_ptr request =
     (if pattern_ptr \<noteq> [] \<and> path_ptr \<noteq> [] then
        (let pattern_len = segment_len pattern_ptr;
             path_len0 = segment_len path_ptr;
             is_param = (hd pattern_ptr = CHR '':'');
             name_len = (if pattern_len - 1 \<ge> 128 then 127 else pattern_len - 1);
             path_len = (if is_param \<and> path_len0 \<ge> 512 then 511 else path_len0);
             request' = (if is_param
                         then http_request_add_path_param request
                                (take name_len (tl pattern_ptr)) (take path_len path_ptr)
                         else request)
         in extract_segments (skip_slash (drop pattern_len pattern_ptr))
                             (skip_slash (drop path_len path_ptr)) request')
      else request)"
  by pat_completeness auto
termination
  by (relation "measure (\<lambda>(pattern_ptr, path_ptr, request). length pattern_ptr)")
     (auto simp add: segment_advance)

declare extract_segments.simps [simp del]

definition http_route_extract_params :: "HTTP_ROUTE \<Rightarrow> string \<Rightarrow> HTTP_REQUEST \<Rightarrow> HTTP_REQUEST" where
  "http_route_extract_params route p request =
     extract_segments (skip_slash (path route)) (skip_slash p) request"


text \<open>
  The segments the walk sees in what is left of a pattern or path: the text up to each
  \<open>'/'\<close>; a final \<open>'/'\<close> ends the last segment and opens no further one.
\<close>

function path_segments :: "string \<Rightarrow> string list" where
  "path_segments s =
     (if s = [] then []
      else take (segment_len s) s # path_segments (skip_slash (drop (segment_len s) s)))"
  by pat_completeness auto
termination
  by (relation "measure length") (auto simp add: segment_advance)

declare path_segments.simps [simp del]

text \<open>
  A pattern segment against a path segment: a segment that begins with \<open>':'\<close> takes any
  path segment, any other segment must be equal to it byte for byte.
\<close>

definition segment_matches :: "string \<Rightarrow> string \<Rightarrow> bool" where
  "segment_matches pattern_seg path_seg =
     ((pattern_seg \<noteq> [] \<and> hd pattern_seg = CHR '':'') \<or> pattern_seg = path_seg)"

section \<open>Query-string decoding (http_server.c)\<close>

definition isspace :: "char \<Rightarrow> bool" where
  "isspace c = (c \<in> set [CHR '' '', CHR 0x09, CHR 0x0A, CHR 0x0B, CHR 0x0C, CHR 0x0D])"

text \<open>The value of a base-16 digit, \<open>None\<close> for any other character.\<close>

definition hex_digit :: "char \<Rightarrow> int option" where
  "hex_digit c =
     (let n = (of_char c :: nat)
      in if 48 \<le> n \<and> n \<le> 57 then Some (int n - 48)
         else if 97 \<le> n \<and> n \<le> 102 then Some (int n - 87)
         else if 65 \<le> n \<and> n \<le> 70 then Some (int n - 55)
         else None)"

fun hex_digits_value :: "int \<Rightarrow> string \<Rightarrow> int" where
  "hex_digits_value acc [] = acc"
| "hex_digits_value acc (c # cs) =
     (case hex_digit c of None \<Rightarrow> acc | Some d \<Rightarrow> hex_digits_value (acc * 16 + d) cs)"

text \<open>
  \<open>strtol(s, NULL, 16)\<close> on a short string (no overflow of \<open>long\<close>): leading white
  space, an optional sign, an optional \<open>0x\<close> that is followed by a hexadecimal digit,
  then the longest run of hexadecimal digits; 0 when there is none.
\<close>

definition strtol16 :: "string \<Rightarrow> int" where
  "strtol16 s =
     (let s1 = dropWhile isspace s;
          neg = (s1 \<noteq> [] \<and> hd s1 = CHR ''-'');
          s2 = (if s1 \<noteq> [] \<and> (hd s1 = CHR ''-'' \<or> hd s1 = CHR ''+'') then tl s1 else s1);
          s3 = (case s2 of
                  a # b # c # r \<Rightarrow>
                    if a = CHR ''0'' \<and> (b = CHR ''x'' \<or> b = CHR ''X'') \<and> hex_digit c \<noteq> None
                    then c # r else s2
                | _ \<Rightarrow> s2);
          v = hex_digits_value 0 s3
      in if neg then - v else v)"

text \<open>
  \<open>url_decode(dst, src, dst_size)\<close>: the loop, with \<open>room\<close> the number of bytes that may
  still be stored before \<open>j\<close> reaches \<open>dst_size - 1\<close>. The result is what the loop has
  stored in \<open>dst\<close> before the final NUL; a stored NUL byte ends the string for every
  later reader (\<open>c_str\<close>). \<open>(char)\<close> keeps the low eight bits.
\<close>

fun url_decode_loop :: "string \<Rightarrow> nat \<Rightarrow> string" where
  "url_decode_loop [] room = []"
| "url_decode_loop (c # cs) room =
     (if room = 0 then []
      else if c = CHR ''%'' \<and> length cs \<ge> 2 then
        char_of (strtol16 (take 2 cs)) # url_decode_loop (drop 2 cs) (room - 1)
      else if c = CHR ''+'' then CHR '' '' # url_decode_loop cs (room - 1)
      else c # url_decode_loop cs (room - 1))"

definition url_decode :: "string \<Rightarrow> nat \<Rightarrow> string" where
  "url_decode src dst_size = url_decode_loop src (dst_size - 1)"

text \<open>
  The tokens \<open>strtok_r(query_copy, "&", ...)\<close> yields: the non-empty runs of characters
  between ampersands; \<open>cur\<close> is the token read so far.
\<close>

fun strtok_amp :: "string \<Rightarrow> string \<Rightarrow> string list" where
  "strtok_amp cur [] = (if cur = [] then [] else [cur])"
| "strtok_amp cur (c # cs) =
     (if c = CHR ''&'' then (if cur = [] then [] else [cur]) @ strtok_amp [] cs
      else strtok_amp (cur @ [c]) cs)"

text \<open>
  \<open>parse_query_string\<close>: each token with an \<open>'='\<close> is split at the first one, key and
  value are decoded into buffers of 128 and 512 bytes, and the decoded C strings are
  stored as a query parameter.
\<close>

definition parse_query_string :: "HTTP_REQUEST \<Rightarrow> HTTP_REQUEST" where
  "parse_query_string request =
     (if length (query_string request) = 0 then request
      else foldl
             (\<lambda>req pair.
                if CHR ''='' \<in> set pair then
                  (let key = takeWhile (\<lambda>c. c \<noteq> CHR ''='') pair;
                       val = tl (dropWhile (\<lambda>c. c \<noteq> CHR ''='') pair)
                   in http_request_add_query_param req
                        (c_str (url_decode key 128)) (c_str (url_decode val 512)))
                else req)
             request (strtok_amp [] (take 2047 (query_string request))))"

section \<open>Response serialisation (http_server.c)\<close>

fun show_nat :: "nat \<Rightarrow> string" where
  "show_nat n =
     (if n < 10 then [''0123456789'' ! n]
      else show_nat (n div 10) @ [''0123456789'' ! (n mod 10)])"

declare show_nat.simps [simp del]

text \<open>\<open>%d\<close>.\<close>

definition show_int :: "int \<Rightarrow> string" where
  "show_int i = (if i < 0 then CHR ''-'' # show_nat (nat (- i)) else show_nat (nat i))"

text \<open>
  \<open>snprintf(buffer + offset, capacity - offset, ...)\<close> followed by \<open>offset += n\<close>, where
  \<open>offset\<close> is the length of what the buffer holds. When the text does not fit, the C
  code stores a cut line and still advances \<open>offset\<close> by the full length, so that the
  bytes in between are indeterminate (or lie outside the buffer): that outcome is the
  error \<open>Truncated\<close>. \<open>Unterminated\<close> is the outcome when a header field of the response
  has no terminator, so that \<open>%s\<close> prints indeterminate bytes.
\<close>

datatype build_error = Truncated | Unterminated

definition snprintf_append :: "string \<Rightarrow> nat \<Rightarrow> string \<Rightarrow> build_error + string" where
  "snprintf_append buffer capacity s =
     (if length s < capacity - length buffer then Inr (buffer @ s) else Inl Truncated)"

text \<open>The header loop, with its doubling of the capacity.\<close>

fun build_headers :: "(string \<times> string) list \<Rightarrow> string \<Rightarrow> nat \<Rightarrow> build_error + (string \<times> nat)" where
  "build_headers [] buffer capacity = Inr (buffer, capacity)"
| "build_headers ((name, val) # hs) buffer capacity =
     (case snprintf_append buffer capacity (name @ '': '' @ val @ CRLF) of
        Inl e \<Rightarrow> Inl e
      | Inr buffer' \<Rightarrow>
          build_headers hs buffer'
            (if length buffer' \<ge> capacity - 512 then capacity * 2 else capacity))"

text \<open>
  \<open>build_http_response\<close>. The last loop of the C function enlarges the buffer until
  the body fits and copies the body; it cannot cut anything.
\<close>

definition build_http_response :: "HTTP_RESPONSE \<Rightarrow> build_error + string" where
  "build_http_response response =
     (if \<not> headers_terminated response then Inl Unterminated
      else
     (case snprintf_append [] 1024
             (''HTTP/1.1 '' @ show_int (status response) @ '' ''
                @ (if length (status_message response) > 0 then status_message response
                   else http_status_to_string (status response))
                @ CRLF) of
        Inl e \<Rightarrow> Inl e
      | Inr b1 \<Rightarrow>
          (case build_headers (headers response) b1 1024 of
             Inl e \<Rightarrow> Inl e
           | Inr (b2, capacity) \<Rightarrow>
               (case (if length (body response) > 0
                      then snprintf_append b2 capacity
                             (''Content-Length: '' @ show_nat (length (body response)) @ CRLF)
                      else Inr b2) of
                  Inl e \<Rightarrow> Inl e
                | Inr b3 \<Rightarrow>
                    (case snprintf_append b3 capacity CRLF of
                       Inl e \<Rightarrow> Inl e
                     | Inr b4 \<Rightarrow> Inr (b4 @ body response))))))"








section \<open>The server record and the static file server (http_server.c)\<close>

text \<open>
  \<open>CONNECTION_STATE\<close>. \<open>buffer_used\<close> is the length of \<open>buffer\<close>; \<open>last_activity\<close> is a
  \<open>time_t\<close> in seconds.
\<close>

record CONNECTION_STATE =
  socket_fd :: int
  buffer :: string
  conn_is_http2 :: int
  http2_conn :: "HTTP2_CONNECTION option"
  last_activity :: int

text \<open>
  \<open>HTTP_SERVER\<close>. \<open>connection_count\<close> is the length of \<open>connection_states\<close>. The field
  \<open>closed_fds\<close> is not a field of the C structure: it records, in order, the descriptors
  the server has passed to \<open>close\<close>.
\<close>

record HTTP_SERVER =
  host :: string
  port :: int
  server_socket :: int
  running :: int
  routes :: "HTTP_ROUTE list"
  epoll_fd :: int
  connection_states :: "CONNECTION_STATE list"
  max_connections :: nat
  static_url_path :: string
  static_directory :: string
  default_file :: string
  static_enabled :: int
  closed_fds :: "int list"

definition MAX_REQUEST_SIZE :: nat where
  "MAX_REQUEST_SIZE = 65536"

definition http_server_create :: "string option \<Rightarrow> int \<Rightarrow> HTTP_SERVER" where
  "http_server_create h p =
     \<lparr>host = (case h of Some n \<Rightarrow> take 255 n | None \<Rightarrow> ''0.0.0.0''),
      port = p, server_socket = -1, running = 0, routes = [],
      epoll_fd = -1, connection_states = [], max_connections = 1000,
      static_url_path = [], static_directory = [], default_file = ''index.html'',
      static_enabled = 0, closed_fds = []\<rparr>"

text \<open>\<open>http_route_create\<close> and \<open>http_server_add_route\<close>: a NULL handler is refused.\<close>

definition http_server_add_route ::
  "HTTP_SERVER \<Rightarrow> HTTP_METHOD \<Rightarrow> string \<Rightarrow> http_route_handler_fn option \<Rightarrow> int \<times> HTTP_SERVER" where
  "http_server_add_route server m p h =
     (case h of
        None \<Rightarrow> (-1, server)
      | Some f \<Rightarrow>
          (0, server\<lparr>routes := routes server
                 @ [\<lparr>method_route = m, path = take 511 p, handler = Some f\<rparr>]\<rparr>))"

text \<open>
  \<open>http_server_add_static_path\<close>; \<open>accessible\<close> is the outcome of \<open>access(directory_path, R_OK)\<close>.
\<close>

definition http_server_add_static_path ::
  "HTTP_SERVER \<Rightarrow> string \<Rightarrow> string \<Rightarrow> bool \<Rightarrow> int \<times> HTTP_SERVER" where
  "http_server_add_static_path server url_path directory_path accessible =
     (if \<not> accessible then (-2, server)
      else (0, server\<lparr>static_url_path := take 255 url_path,
                        static_directory := take 511 directory_path,
                        static_enabled := 1\<rparr>))"

definition tolower :: "char \<Rightarrow> char" where
  "tolower c =
     (if 65 \<le> (of_char c :: nat) \<and> (of_char c :: nat) \<le> 90
      then char_of ((of_char c :: nat) + 32) else c)"

text \<open>\<open>strcasecmp(a, b) == 0\<close>.\<close>

definition strcasecmp_eq :: "string \<Rightarrow> string \<Rightarrow> bool" where
  "strcasecmp_eq a b = (map tolower a = map tolower b)"

definition http_get_mime_type :: "string \<Rightarrow> string" where
  "http_get_mime_type filename =
     (if CHR ''.'' \<notin> set filename then ''application/octet-stream''
      else
        (let ext = rev (takeWhile (\<lambda>c. c \<noteq> CHR ''.'') (rev filename))
         in if strcasecmp_eq ext ''html'' \<or> strcasecmp_eq ext ''htm'' then ''text/html''
            else if strcasecmp_eq ext ''css'' then ''text/css''
            else if strcasecmp_eq ext ''js'' then ''application/javascript''
            else if strcasecmp_eq ext ''json'' then ''application/json''
            else if strcasecmp_eq ext ''xml'' then ''application/xml''
            else if strcasecmp_eq ext ''txt'' then ''text/plain''
            else if strcasecmp_eq ext ''png'' then ''image/png''
            else if strcasecmp_eq ext ''jpg'' \<or> strcasecmp_eq ext ''jpeg'' then ''image/jpeg''
            else if strcasecmp_eq ext ''gif'' then ''image/gif''
            else if strcasecmp_eq ext ''svg'' then ''image/svg+xml''
            else if strcasecmp_eq ext ''ico'' then ''image/x-icon''
            else if strcasecmp_eq ext ''woff'' then ''font/woff''
            else if strcasecmp_eq ext ''woff2'' then ''font/woff2''
            else if strcasecmp_eq ext ''ttf'' then ''font/ttf''
            else ''application/octet-stream''))"

text \<open>
  The file system as \<open>serve_static_file\<close> sees it: \<open>fopen(path, "rb")\<close> fails
  (\<open>None\<close>) or gives the file's bytes, which \<open>ftell\<close> measures and \<open>fread\<close> reads in
  full.
\<close>

type_synonym filesystem = "string \<Rightarrow> string option"

text \<open>
  The \<open>file_path\<close> buffer of \<open>serve_static_file\<close> after \<open>snprintf\<close>, which keeps at most
  1023 characters. \<open>url_path\<close> is known to start with the URL prefix.
\<close>

definition static_file_path :: "HTTP_SERVER \<Rightarrow> string \<Rightarrow> string" where
  "static_file_path server url_path =
     (let relative_path = skip_slash (drop (length (static_url_path server)) url_path)
      in if relative_path = [] \<or> last relative_path = CHR ''/''
         then take 1023 (static_directory server @ ''/'' @ relative_path @ default_file server)
         else take 1023 (static_directory server @ ''/'' @ relative_path))"

text \<open>
  \<open>serve_static_file\<close>: the return value, the response, and the paths passed to
  \<open>fopen\<close>, in order.
\<close>

definition serve_static_file ::
  "HTTP_SERVER \<Rightarrow> filesystem \<Rightarrow> string \<Rightarrow> HTTP_RESPONSE \<Rightarrow> int \<times> HTTP_RESPONSE \<times> string list" where
  "serve_static_file server fs url_path response =
     (if static_enabled server = 0 then (-1, response, [])
      else if take (length (static_url_path server)) url_path \<noteq> static_url_path server
      then (-1, response, [])
      else
        (let file_path = static_file_path server url_path
         in if strstr_found file_path ''..'' then
              (0, http_response_set_text
                    (http_response_set_status response HTTP_STATUS_FORBIDDEN) ''403 Forbidden'', [])
            else
              (case fs file_path of
                 None \<Rightarrow>
                   (0, http_response_set_text
                         (http_response_set_status response HTTP_STATUS_NOT_FOUND) ''404 Not Found'',
                    [file_path])
               | Some content \<Rightarrow>
                   if length content > 10 * 1024 * 1024 then
                     (0, http_response_set_text
                           (http_response_set_status response HTTP_STATUS_INTERNAL_ERROR)
                           ''File too large'',
                      [file_path])
                   else
                     (0, http_response_set_body
                           (http_response_add_header
                              (http_response_set_status response HTTP_STATUS_OK)
                              ''Content-Type'' (http_get_mime_type file_path))
                           content,
                      [file_path]))))"

section \<open>Dispatch (process_http_request, http_server.c)\<close>

text \<open>
  The loop over the route table: the index of the first route, from \<open>i\<close> on, that
  \<open>http_route_matches\<close> accepts.
\<close>

function find_route :: "HTTP_ROUTE list \<Rightarrow> HTTP_METHOD \<Rightarrow> string \<Rightarrow> nat \<Rightarrow> nat option" where
  "find_route rs m p i =
     (if i < length rs then
        (if http_route_matches (rs ! i) m p then Some i else find_route rs m p (i + 1))
      else None)"
  by pat_completeness auto
termination
  by (relation "measure (\<lambda>(rs, m, p, i). length rs - i)") auto

declare find_route.simps [simp del]

text \<open>
  The part of \<open>process_http_request\<close> between the parsed request and the serialised
  response: create the response, look the route up, call the handler of the matched
  route or fall through to the static file server and then to 404. The result holds
  the response, the indices of the routes whose handler was called, in order, and the
  paths passed to \<open>fopen\<close>.
\<close>

definition dispatch_request ::
  "HTTP_SERVER \<Rightarrow> filesystem \<Rightarrow> HTTP_REQUEST \<Rightarrow> HTTP_RESPONSE \<times> nat list \<times> string list" where
  "dispatch_request server fs request =
     (let response = http_response_create;
          matched_route = find_route (routes server) (req_method request) (req_path request) 0;
          called = (case matched_route of
                      None \<Rightarrow> None
                    | Some i \<Rightarrow>
                        (case handler (routes server ! i) of
                           None \<Rightarrow> None
                         | Some h \<Rightarrow>
                             Some (i, h (http_route_extract_params (routes server ! i)
                                           (req_path request) request))))
      in case called of
           Some (i, run) \<Rightarrow> (run response, [i], [])
         | None \<Rightarrow>
             (case serve_static_file server fs (req_path request) response of
                (rc, response', opened) \<Rightarrow>
                  if rc < 0 then
                    (http_response_set_text
                       (http_response_set_status response' HTTP_STATUS_NOT_FOUND) ''404 Not Found'',
                     [], opened)
                  else (response', [], opened)))"


section \<open>The reactor (http_server.c)\<close>

fun find_connection :: "CONNECTION_STATE list \<Rightarrow> int \<Rightarrow> CONNECTION_STATE option" where
  "find_connection [] fd = None"
| "find_connection (c # cs) fd = (if socket_fd c = fd then Some c else find_connection cs fd)"

text \<open>The index of the first connection with the given descriptor.\<close>

fun connection_index :: "CONNECTION_STATE list \<Rightarrow> int \<Rightarrow> nat option" where
  "connection_index [] fd = None"
| "connection_index (c # cs) fd =
     (if socket_fd c = fd then Some 0 else map_option Suc (connection_index cs fd))"

text \<open>\<open>add_connection\<close>; \<open>now\<close> is the value of \<open>time(NULL)\<close>.\<close>

definition add_connection :: "HTTP_SERVER \<Rightarrow> int \<Rightarrow> int \<Rightarrow> CONNECTION_STATE option \<times> HTTP_SERVER" where
  "add_connection server fd now =
     (if length (connection_states server) \<ge> max_connections server then (None, server)
      else
        (let conn = \<lparr>socket_fd = fd, buffer = [], conn_is_http2 = 0, http2_conn = None,
                      last_activity = now\<rparr>
         in (Some conn, server\<lparr>connection_states := connection_states server @ [conn]\<rparr>)))"

text \<open>
  \<open>remove_connection\<close>: close the descriptor, move the last connection into the freed
  slot and shorten the table; nothing happens when no connection has the descriptor.
\<close>

definition remove_connection :: "HTTP_SERVER \<Rightarrow> int \<Rightarrow> HTTP_SERVER" where
  "remove_connection server fd =
     (case connection_index (connection_states server) fd of
        None \<Rightarrow> server
      | Some i \<Rightarrow>
          (let cs = connection_states server;
               cs' = (if i < length cs - 1 then cs[i := last cs] else cs)
           in server\<lparr>connection_states := butlast cs',
                      closed_fds := closed_fds server @ [fd]\<rparr>))"

text \<open>
  One successful \<open>accept\<close>: the new descriptor, and whether \<open>set_nonblocking\<close> and
  \<open>epoll_ctl\<close> will succeed on it.
\<close>

record accepted_socket =
  accepted_fd :: int
  nonblocking_ok :: bool
  epoll_add_ok :: bool

text \<open>
  \<open>accept_new_connection\<close>: the loop runs over the sockets that \<open>accept\<close> returns
  until \<open>accept\<close> fails (the end of the list).
\<close>

fun accept_new_connection :: "HTTP_SERVER \<Rightarrow> int \<Rightarrow> accepted_socket list \<Rightarrow> HTTP_SERVER" where
  "accept_new_connection server now [] = server"
| "accept_new_connection server now (a # pending) =
     (if \<not> nonblocking_ok a then
        accept_new_connection
          (server\<lparr>closed_fds := closed_fds server @ [accepted_fd a]\<rparr>) now pending
      else
        (case add_connection server (accepted_fd a) now of
           (None, server') \<Rightarrow>
             accept_new_connection
               (server'\<lparr>closed_fds := closed_fds server' @ [accepted_fd a]\<rparr>) now pending
         | (Some conn, server') \<Rightarrow>
             if \<not> epoll_add_ok a then
               accept_new_connection (remove_connection server' (accepted_fd a)) now pending
             else accept_new_connection server' now pending))"

text \<open>
  What \<open>process_http_request\<close> does to the connection table. Parsing, dispatch and the
  transmission of the response do not touch the table; every path past the search for
  the blank line ends in \<open>remove_connection\<close>.
\<close>

definition process_http_request :: "HTTP_SERVER \<Rightarrow> CONNECTION_STATE \<Rightarrow> HTTP_SERVER" where
  "process_http_request server conn =
     (if length (buffer conn) < 4 then server
      else if \<not> strstr_found (c_str (buffer conn)) (CRLF @ CRLF) then
        (if length (buffer conn) \<ge> MAX_REQUEST_SIZE - 1
         then remove_connection server (socket_fd conn) else server)
      else remove_connection server (socket_fd conn))"

datatype recv_result = Recv_bytes string | Recv_would_block | Recv_closed

text \<open>
  \<open>handle_client_data\<close>, as far as the connection table goes: \<open>recv\<close> appends to the
  connection's buffer, and the connection is dropped after an HTTP/2 preface or handed
  to \<open>process_http_request\<close>. What the HTTP/2 path writes to the socket is not part of
  this model.
\<close>

definition handle_client_data :: "HTTP_SERVER \<Rightarrow> int \<Rightarrow> recv_result \<Rightarrow> int \<Rightarrow> HTTP_SERVER" where
  "handle_client_data server client_socket r now =
     (case connection_index (connection_states server) client_socket of
        None \<Rightarrow> server
      | Some i \<Rightarrow>
          (let conn = connection_states server ! i
           in case r of
                Recv_would_block \<Rightarrow> server
              | Recv_closed \<Rightarrow> remove_connection server client_socket
              | Recv_bytes d \<Rightarrow>
                  (let got = take (MAX_REQUEST_SIZE - length (buffer conn) - 1) d
                   in if got = [] then remove_connection server client_socket
                      else
                        (let conn' = conn\<lparr>buffer := buffer conn @ got, last_activity := now\<rparr>;
                             server' = server\<lparr>connection_states :=
                                                (connection_states server)[i := conn']\<rparr>
                         in if length (buffer conn') \<ge> HTTP2_PREFACE_LEN \<and> conn_is_http2 conn' = 0
                                 \<and> map of_char (take HTTP2_PREFACE_LEN (buffer conn')) = HTTP2_PREFACE
                            then remove_connection server' client_socket
                            else if conn_is_http2 conn' = 0
                            then process_http_request server' conn'
                            else server'))))"

text \<open>
  The same lines of \<open>handle_client_data\<close> as the client's socket sees them, up to the
  end of the HTTP/2 branch: \<open>recv\<close> without \<open>MSG_PEEK\<close> moves the pending bytes into the
  connection's buffer; when the buffer then starts with the preface, the connection is
  handed to \<open>http2_connection_create\<close> and \<open>http2_handle_connection\<close> on that socket.
  The result is \<open>None\<close> when nothing was read or the buffer does not start with the
  preface, else the value \<open>http2_handle_connection\<close> returns and the socket afterwards.
\<close>

definition handle_client_data_socket :: "u8 list \<Rightarrow> socket_state \<Rightarrow> (int \<times> socket_state) option" where
  "handle_client_data_socket buf sock =
     (case recv_sock sock (MAX_REQUEST_SIZE - length buf - 1) False of
        (bytes_read, got, sock') \<Rightarrow>
          if bytes_read \<le> 0 then None
          else if length (buf @ got) \<ge> HTTP2_PREFACE_LEN
                  \<and> take HTTP2_PREFACE_LEN (buf @ got) = HTTP2_PREFACE
          then (case http2_handle_connection (Some (http2_connection_create sock')) of
                  (rc, Some c) \<Rightarrow> Some (rc, socket c)
                | (rc, None) \<Rightarrow> Some (rc, sock'))
          else None)"

lemma connection_index_less:
  "connection_index cs fd = Some i \<Longrightarrow> i < length cs"
  by (induction cs arbitrary: i) (auto split: if_splits)

lemma connection_index_socket:
  "i < length cs \<Longrightarrow> \<exists>j. connection_index cs (socket_fd (cs ! i)) = Some j"
proof (induction cs arbitrary: i)
  case Nil
  then show ?case by simp
next
  case (Cons c cs)
  then show ?case by (cases i) auto
qed

lemma length_remove_connection:
  "length (connection_states (remove_connection server fd))
     = (case connection_index (connection_states server) fd of
          None \<Rightarrow> length (connection_states server)
        | Some i \<Rightarrow> length (connection_states server) - 1)"
  by (simp add: remove_connection_def Let_def split: option.split)

text \<open>The idle sweep at the end of each iteration of the event loop.\<close>

function idle_sweep :: "HTTP_SERVER \<Rightarrow> int \<Rightarrow> nat \<Rightarrow> HTTP_SERVER" where
  "idle_sweep server now i =
     (if i < length (connection_states server) then
        (if now - last_activity (connection_states server ! i) > 60
         then idle_sweep (remove_connection server (socket_fd (connection_states server ! i))) now i
         else idle_sweep server now (i + 1))
      else server)"
  by pat_completeness auto
termination
proof (relation "measure (\<lambda>(server, now, i). length (connection_states server) - i)")
  show "wf (measure (\<lambda>(server, now, i). length (connection_states server) - i))"
    by simp
next
  fix server :: HTTP_SERVER and now :: int and i :: nat
  assume i: "i < length (connection_states server)"
  obtain j where "connection_index (connection_states server)
                    (socket_fd (connection_states server ! i)) = Some j"
    using connection_index_socket [OF i] by blast
  then have "length (connection_states
               (remove_connection server (socket_fd (connection_states server ! i))))
             = length (connection_states server) - 1"
    by (simp add: length_remove_connection)
  with i show "((remove_connection server (socket_fd (connection_states server ! i)), now, i),
                server, now, i)
               \<in> measure (\<lambda>(server, now, i). length (connection_states server) - i)"
    by simp
next
  fix server :: HTTP_SERVER and now :: int and i :: nat
  assume "i < length (connection_states server)"
  then show "((server, now, i + 1), server, now, i)
               \<in> measure (\<lambda>(server, now, i). length (connection_states server) - i)"
    by simp
qed

declare idle_sweep.simps [simp del]

text \<open>
  \<open>http_server_start\<close>; \<open>sockets\<close> is \<open>None\<close> when one of the system calls fails, else
  the listening socket and the epoll descriptor. The descriptor fields left behind by a
  failed start are not modelled.
\<close>

definition http_server_start :: "HTTP_SERVER \<Rightarrow> (int \<times> int) option \<Rightarrow> int \<times> HTTP_SERVER" where
  "http_server_start server sockets =
     (if running server \<noteq> 0 then (-6, server)
      else (case sockets of
              None \<Rightarrow> (-2, server)
            | Some (lsock, ep) \<Rightarrow>
                (0, server\<lparr>server_socket := lsock, epoll_fd := ep, running := 1\<rparr>)))"

definition http_server_stop :: "HTTP_SERVER \<Rightarrow> int \<times> HTTP_SERVER" where
  "http_server_stop server =
     (if running server = 0 then (-6, server)
      else (0, server\<lparr>running := 0,
                        connection_states := [],
                        closed_fds := closed_fds server
                           @ map socket_fd (connection_states server)
                           @ (if epoll_fd server \<ge> 0 then [epoll_fd server] else [])
                           @ (if server_socket server \<ge> 0 then [server_socket server] else []),
                        epoll_fd := -1,
                        server_socket := -1\<rparr>))"

text \<open>
  What one iteration of the loop in \<open>http_server_run\<close> can meet: the listening socket
  is ready, a client socket reports an error or hang-up, a client socket is readable,
  or the shutdown signal arrives and its handler calls \<open>http_server_stop\<close>.
\<close>

datatype epoll_event =
    Ev_listen "accepted_socket list"
  | Ev_hangup int
  | Ev_readable int recv_result
  | Ev_signal

fun process_event :: "int \<Rightarrow> HTTP_SERVER \<Rightarrow> epoll_event \<Rightarrow> HTTP_SERVER" where
  "process_event now server (Ev_listen pending) = accept_new_connection server now pending"
| "process_event now server (Ev_hangup fd) = remove_connection server fd"
| "process_event now server (Ev_readable fd r) = handle_client_data server fd r now"
| "process_event now server Ev_signal = snd (http_server_stop server)"

text \<open>One iteration: the ready events in order, then the idle sweep; one clock value.\<close>

definition loop_iteration :: "HTTP_SERVER \<Rightarrow> int \<times> epoll_event list \<Rightarrow> HTTP_SERVER" where
  "loop_iteration server it = idle_sweep (foldl (process_event (fst it)) server (snd it)) (fst it) 0"

text \<open>
  The loop of \<open>http_server_run\<close> over the iterations the environment supplies; it
  leaves as soon as \<open>running\<close> is cleared.
\<close>

fun http_server_run :: "HTTP_SERVER \<Rightarrow> (int \<times> epoll_event list) list \<Rightarrow> HTTP_SERVER" where
  "http_server_run server [] = server"
| "http_server_run server (it # its) =
     (if running server \<noteq> 0 then http_server_run (loop_iteration server it) its else server)"

text \<open>The connection bound: the table holds at most \<open>max_connections\<close> connections.\<close>

definition within_bound :: "HTTP_SERVER \<Rightarrow> bool" where
  "within_bound server = (length (connection_states server) \<le> max_connections server)"

section \<open>The supervisor (application.c, kafka_client.c)\<close>

text \<open>
  \<open>KAFKA_CLIENT\<close>: the client's \<open>running\<close> flag and the \<open>running\<close> flag of each registered
  consumer.
\<close>

record KAFKA_CLIENT =
  kafka_running :: int
  consumers_running :: "int list"

text \<open>
  The consumer loop of \<open>kafka_client_start\<close>; \<open>fails\<close> is the index of the consumer whose
  \<open>pthread_create\<close> fails, if any.
\<close>

fun start_consumers :: "int list \<Rightarrow> nat \<Rightarrow> nat option \<Rightarrow> int \<times> int list" where
  "start_consumers [] i fails = (0, [])"
| "start_consumers (c # cs) i fails =
     (if fails = Some i then (-2, 0 # cs)
      else (case start_consumers cs (i + 1) fails of (rc, cs') \<Rightarrow> (rc, 1 # cs')))"

definition kafka_client_start :: "KAFKA_CLIENT \<Rightarrow> nat option \<Rightarrow> int \<times> KAFKA_CLIENT" where
  "kafka_client_start client fails =
     (if kafka_running client \<noteq> 0 then (-6, client)
      else (case start_consumers (consumers_running client) 0 fails of
              (rc, cs) \<Rightarrow> (rc, client\<lparr>kafka_running := 1, consumers_running := cs\<rparr>)))"

definition kafka_client_stop :: "KAFKA_CLIENT \<Rightarrow> int \<times> KAFKA_CLIENT" where
  "kafka_client_stop client =
     (if kafka_running client = 0 then (-6, client)
      else (0, client\<lparr>kafka_running := 0,
                        consumers_running := map (\<lambda>c. 0) (consumers_running client)\<rparr>))"

record APPLICATION =
  app_running :: int
  http_server :: "HTTP_SERVER option"
  kafka_client :: "KAFKA_CLIENT option"

text \<open>The calls \<open>application_run\<close> and the signal handler make into the two subsystems.\<close>

datatype lifecycle_call =
    Call_http_server_start
  | Call_kafka_client_start
  | Call_http_server_run
  | Call_kafka_client_stop
  | Call_http_server_stop

text \<open>
  What the environment decides during one \<open>application_run\<close>: the outcome of the system
  calls of \<open>http_server_start\<close>, the consumer whose thread cannot be created, the
  iterations of the HTTP event loop (a shutdown signal is the event \<open>Ev_signal\<close>),
  whether \<open>epoll_wait\<close> fails once these iterations are used up, and, when only Kafka is
  bound, whether a shutdown signal ever arrives.
\<close>

record run_env =
  start_sockets :: "(int \<times> int) option"
  thread_fails :: "nat option"
  iterations :: "(int \<times> epoll_event list) list"
  epoll_fails :: bool
  signal_arrives :: bool

text \<open>
  The main loop of \<open>application_run\<close> with an HTTP server bound: \<open>http_server_run\<close>. The
  loop ends when the signal handler has stopped the server, which also clears the
  application's \<open>running\<close> flag, or when \<open>epoll_wait\<close> fails; otherwise it never returns
  (\<open>None\<close>).
\<close>

definition run_http_loop ::
  "HTTP_SERVER \<Rightarrow> run_env \<Rightarrow> (HTTP_SERVER \<times> bool) option \<times> lifecycle_call list" where
  "run_http_loop server env =
     (let server' = http_server_run server (iterations env)
      in if running server' = 0 then (Some (server', True), [Call_http_server_run, Call_http_server_stop])
         else if epoll_fails env then (Some (server', False), [Call_http_server_run])
         else (None, [Call_http_server_run]))"

text \<open>
  \<open>application_run\<close>: the return value (\<open>None\<close> when the main loop never ends), the
  application afterwards, and the calls made, in order.
\<close>

definition application_run ::
  "APPLICATION \<Rightarrow> run_env \<Rightarrow> int option \<times> APPLICATION \<times> lifecycle_call list" where
  "application_run app env =
     (if http_server app = None \<and> kafka_client app = None then (Some (-2), app, [])
      else
        (let app1 = app\<lparr>app_running := 1\<rparr>;
             (rc_h, hs, log1) =
               (case http_server app1 of
                  None \<Rightarrow> (0, None, [])
                | Some s \<Rightarrow>
                    (case http_server_start s (start_sockets env) of
                       (rc, s') \<Rightarrow> (rc, Some s', [Call_http_server_start])))
         in if rc_h \<noteq> 0 then (Some (-6), app1\<lparr>app_running := 0, http_server := hs\<rparr>, log1)
            else
              (let (rc_k, ks, log2) =
                     (case kafka_client app1 of
                        None \<Rightarrow> (0, None, [])
                      | Some k \<Rightarrow>
                          (case kafka_client_start k (thread_fails env) of
                             (rc, k') \<Rightarrow> (rc, Some k', [Call_kafka_client_start])))
               in if rc_k \<noteq> 0 then
                    (Some (-6),
                     app1\<lparr>app_running := 0,
                           http_server := map_option (\<lambda>s. snd (http_server_stop s)) hs,
                           kafka_client := ks\<rparr>,
                     log1 @ log2 @ (if hs \<noteq> None then [Call_http_server_stop] else []))
                  else
                    (let (returned, hs', log3) =
                           (case hs of
                              Some s \<Rightarrow>
                                (case run_http_loop s env of
                                   (Some (s', by_signal), l) \<Rightarrow> (True, Some s', l)
                                 | (None, l) \<Rightarrow> (False, Some s, l))
                            | None \<Rightarrow> (signal_arrives env, None, []))
                     in if \<not> returned then
                          (None, app1\<lparr>http_server := hs', kafka_client := ks\<rparr>, log1 @ log2 @ log3)
                        else
                          (Some 0,
                           app1\<lparr>app_running := 0,
                                 http_server := map_option (\<lambda>s. snd (http_server_stop s)) hs',
                                 kafka_client := map_option (\<lambda>k. snd (kafka_client_stop k)) ks\<rparr>,
                           log1 @ log2 @ log3
                             @ (if ks \<noteq> None then [Call_kafka_client_stop] else [])
                             @ (if hs' \<noteq> None then [Call_http_server_stop] else []))))))"

text \<open>
  \<open>a\<close> occurs in the list of calls, and occurs before the first \<open>b\<close>.
\<close>

definition called_before :: "lifecycle_call \<Rightarrow> lifecycle_call \<Rightarrow> lifecycle_call list \<Rightarrow> bool" where
  "called_before a b calls = (a \<in> set (takeWhile (\<lambda>c. c \<noteq> b) calls))"

section \<open>Frame header round trip\<close>

lemma mask8_u32: "(255::u32) = mask 8"
  by (simp add: mask_eq_exp_minus_1)

lemma mask7_u32: "(127::u32) = mask 7"
  by (simp add: mask_eq_exp_minus_1)

lemma mask7_u8: "(127::u8) = mask 7"
  by (simp add: mask_eq_exp_minus_1)

lemma upper_bits_clear:
  fixes l :: u32
  assumes "l < 2 ^ k" and "k \<le> n"
  shows "\<not> bit l n"
proof -
  from assms(1) have "l AND mask k = l"
    by (simp add: less_mask_eq)
  then have "bit l n = bit (l AND mask k) n"
    by simp
  also have "\<dots> = False"
    using assms(2) by (simp add: bit_simps)
  finally show ?thesis by simp
qed

lemma bit_byte_at:
  fixes l :: u32
  shows "bit (push_bit k (ucast (ucast (drop_bit k l AND mask 8) :: u8) :: u32)) n
           \<longleftrightarrow> k \<le> n \<and> n < k + 8 \<and> n < 32 \<and> bit l n"
  by (auto simp add: bit_simps)

lemma bit_byte_low:
  fixes l :: u32
  shows "bit (ucast (ucast (l AND mask 8) :: u8) :: u32) n \<longleftrightarrow> n < 8 \<and> bit l n"
  by (auto simp add: bit_simps)

lemma bit_byte_top:
  fixes l :: u32
  shows "bit (push_bit k (ucast ((ucast (drop_bit k l AND mask 7) :: u8) AND mask 7) :: u32)) n
           \<longleftrightarrow> k \<le> n \<and> n < k + 7 \<and> n < 32 \<and> bit l n"
  by (auto simp add: bit_simps)

lemma length24_round_trip:
  fixes l :: u32
  assumes "l < 2 ^ 24"
  shows "push_bit 16 (ucast (ucast (drop_bit 16 l AND 0xFF) :: u8))
           OR push_bit 8 (ucast (ucast (drop_bit 8 l AND 0xFF) :: u8))
           OR ucast (ucast (l AND 0xFF) :: u8) = l"
proof (rule bit_word_eqI)
  fix n
  assume "n < LENGTH(32)"
  have hi: "\<not> bit l n" if "24 \<le> n"
    using upper_bits_clear [OF assms that] .
  show "bit (push_bit 16 (ucast (ucast (drop_bit 16 l AND 0xFF) :: u8))
           OR push_bit 8 (ucast (ucast (drop_bit 8 l AND 0xFF) :: u8))
           OR ucast (ucast (l AND 0xFF) :: u8) :: u32) n = bit l n"
    unfolding mask8_u32 bit_or_iff bit_byte_at bit_byte_low
    using hi by (cases "n < 24") auto
qed

lemma stream31_round_trip:
  fixes l :: u32
  assumes "l < 2 ^ 31"
  shows "push_bit 24 (ucast ((ucast (drop_bit 24 l AND 0x7F) :: u8) AND 0x7F))
           OR push_bit 16 (ucast (ucast (drop_bit 16 l AND 0xFF) :: u8))
           OR push_bit 8 (ucast (ucast (drop_bit 8 l AND 0xFF) :: u8))
           OR ucast (ucast (l AND 0xFF) :: u8) = l"
proof (rule bit_word_eqI)
  fix n
  assume "n < LENGTH(32)"
  have hi: "\<not> bit l n" if "31 \<le> n"
    using upper_bits_clear [OF assms that] .
  show "bit (push_bit 24 (ucast ((ucast (drop_bit 24 l AND 0x7F) :: u8) AND 0x7F))
           OR push_bit 16 (ucast (ucast (drop_bit 16 l AND 0xFF) :: u8))
           OR push_bit 8 (ucast (ucast (drop_bit 8 l AND 0xFF) :: u8))
           OR ucast (ucast (l AND 0xFF) :: u8) :: u32) n = bit l n"
    unfolding mask8_u32 mask7_u32 mask7_u8 bit_or_iff bit_byte_at bit_byte_low bit_byte_top
    using hi by (cases "n < 31") auto
qed

lemma parse_frame_header_bytes:
  assumes "len < 2 ^ 24" and "sid < 2 ^ 31"
  shows "http2_parse_frame_header (Some (frame_header_bytes type flags sid len))
           = (0, Some \<lparr>length_hdr = len, type_hdr = word_of_int (frame_type_value type),
                        flags_hdr = flags, stream_id = sid\<rparr>)"
  using length24_round_trip [OF assms(1)] stream31_round_trip [OF assms(2)]
  by (simp add: http2_parse_frame_header_def frame_header_bytes_def)

lemma frame_type_value_byte:
  "uint (word_of_int (frame_type_value type) :: u8) = frame_type_value type"
  by (cases type) simp_all

lemma length_frame_header_bytes: "length (frame_header_bytes type flags sid len) = 9"
  by (simp add: frame_header_bytes_def)

lemma send_sock_all:
  assumes "length bs \<le> tx_room s"
  shows "send_sock s bs = (int (length bs), s\<lparr>tx := tx s @ bs, tx_room := tx_room s - length bs\<rparr>)"
  using assms by (auto simp add: send_sock_def min_def Let_def)

lemma send_sock_tx: "\<exists>rest. tx (snd (send_sock s bs)) = tx s @ rest"
  by (simp add: send_sock_def Let_def)

lemma http2_send_frame_tx:
  assumes "9 \<le> tx_room (socket c)"
  shows "\<exists>r c' rest. http2_send_frame (Some c) type flags sid payload len = (r, Some c')
           \<and> tx (socket c') = tx (socket c) @ frame_header_bytes type flags sid len @ rest"
proof -
  define hdr where "hdr = frame_header_bytes type flags sid len"
  define s1 where "s1 = (socket c)\<lparr>tx := tx (socket c) @ hdr, tx_room := tx_room (socket c) - 9\<rparr>"
  have s: "send_sock (socket c) hdr = (9, s1)"
    using assms send_sock_all [of hdr "socket c"]
    by (simp add: hdr_def s1_def length_frame_header_bytes)
  have t1: "tx s1 = tx (socket c) @ hdr"
    by (simp add: s1_def)
  show ?thesis
  proof (cases payload)
    case None
    then show ?thesis
      using s t1 by (simp add: http2_send_frame_def hdr_def [symmetric])
  next
    case (Some p)
    obtain m s2 where m: "send_sock s1 (take (unat len) p) = (m, s2)"
      by (cases "send_sock s1 (take (unat len) p)")
    obtain rest where "tx s2 = tx s1 @ rest"
      using send_sock_tx [of s1 "take (unat len) p"] m by auto
    then show ?thesis
      using s t1 m Some by (simp add: http2_send_frame_def hdr_def [symmetric])
  qed
qed

text \<open>
  Claim C10. For a payload length below \<open>2^24\<close> and a stream identifier below \<open>2^31\<close>,
  parsing the nine header bytes that \<open>http2_send_frame\<close> writes to the socket gives back
  the length, type, flags and stream identifier that were passed in. The socket must
  accept the nine bytes.
\<close>

theorem frame_header_round_trip:
  assumes "len < 2 ^ 24" and "sid < 2 ^ 31" and "9 \<le> tx_room (socket c)"
  shows "http2_parse_frame_header
           (Some (take 9 (bytes_sent c (snd (http2_send_frame (Some c) type flags sid payload len)))))
         = (0, Some \<lparr>length_hdr = len, type_hdr = word_of_int (frame_type_value type),
                      flags_hdr = flags, stream_id = sid\<rparr>)
         \<and> uint (word_of_int (frame_type_value type) :: u8) = frame_type_value type"
proof -
  obtain r c' rest where
    f: "http2_send_frame (Some c) type flags sid payload len = (r, Some c')" and
    t: "tx (socket c') = tx (socket c) @ frame_header_bytes type flags sid len @ rest"
    using http2_send_frame_tx [OF assms(3)] by blast
  have "take 9 (bytes_sent c (snd (http2_send_frame (Some c) type flags sid payload len)))
          = frame_header_bytes type flags sid len"
    by (simp add: f t bytes_sent_def length_frame_header_bytes)
  then show ?thesis
    using parse_frame_header_bytes [OF assms(1,2)] frame_type_value_byte
    by simp
qed

theorem frame_header_round_trip_witness:
  "(300::u32) < 2 ^ 24 \<and> (3::u32) < 2 ^ 31
     \<and> 9 \<le> tx_room (socket (http2_connection_create \<lparr>rx = [], tx = [7], tx_room = 64\<rparr>))
     \<and> http2_parse_frame_header
           (Some (take 9 (bytes_sent (http2_connection_create \<lparr>rx = [], tx = [7], tx_room = 64\<rparr>)
              (snd (http2_send_frame (Some (http2_connection_create \<lparr>rx = [], tx = [7], tx_room = 64\<rparr>))
                      HTTP2_FRAME_HEADERS 4 3 (Some [1, 2, 3]) 300)))))
         = (0, Some \<lparr>length_hdr = 300, type_hdr = 1, flags_hdr = 4, stream_id = 3\<rparr>)"
  using frame_header_round_trip [of 300 3 "http2_connection_create \<lparr>rx = [], tx = [7], tx_room = 64\<rparr>"
      HTTP2_FRAME_HEADERS 4 "Some [1, 2, 3]"]
  by (simp add: http2_connection_create_def)

lemma settings_payload_default:
  "setting_entry HTTP2_SETTINGS_HEADER_TABLE_SIZE (default_settings ! 1)
                 @ setting_entry HTTP2_SETTINGS_ENABLE_PUSH (default_settings ! 2)
                 @ setting_entry HTTP2_SETTINGS_MAX_CONCURRENT_STREAMS (default_settings ! 3)
                 @ setting_entry HTTP2_SETTINGS_INITIAL_WINDOW_SIZE (default_settings ! 4)
                 @ setting_entry HTTP2_SETTINGS_MAX_FRAME_SIZE (default_settings ! 5)
                 @ setting_entry HTTP2_SETTINGS_MAX_HEADER_LIST_SIZE (default_settings ! 6)
   = drop 9 initial_settings_frame"
  by (simp add: setting_entry_def default_settings_def initial_settings_frame_def
      HTTP2_SETTINGS_HEADER_TABLE_SIZE_def HTTP2_SETTINGS_ENABLE_PUSH_def
      HTTP2_SETTINGS_MAX_CONCURRENT_STREAMS_def HTTP2_SETTINGS_INITIAL_WINDOW_SIZE_def
      HTTP2_SETTINGS_MAX_FRAME_SIZE_def HTTP2_SETTINGS_MAX_HEADER_LIST_SIZE_def)

lemma settings_header_bytes:
  "frame_header_bytes HTTP2_FRAME_SETTINGS HTTP2_FLAG_NONE 0 36 = take 9 initial_settings_frame"
  by (simp add: frame_header_bytes_def initial_settings_frame_def HTTP2_FLAG_NONE_def)

lemma length_HTTP2_PREFACE: "length HTTP2_PREFACE = 24"
  by (simp add: HTTP2_PREFACE_def)

lemma length_initial_settings_frame: "length initial_settings_frame = 45"
  by (simp add: initial_settings_frame_def)

lemma initial_settings_frame_split:
  "take 9 initial_settings_frame @ drop 9 initial_settings_frame = initial_settings_frame"
  by simp

lemma http2_send_frame_payload:
  assumes "9 + length p \<le> tx_room (socket c)" and "unat len = length p"
  shows "http2_send_frame (Some c) type flags sid (Some p) len
           = (0, Some (c\<lparr>socket := (socket c)
                \<lparr>tx := tx (socket c) @ frame_header_bytes type flags sid len @ p,
                 tx_room := tx_room (socket c) - (9 + length p)\<rparr>\<rparr>))"
proof -
  define hdr where "hdr = frame_header_bytes type flags sid len"
  define s1 where "s1 = (socket c)\<lparr>tx := tx (socket c) @ hdr, tx_room := tx_room (socket c) - 9\<rparr>"
  have l1: "length hdr = 9"
    by (simp add: hdr_def length_frame_header_bytes)
  have s1: "send_sock (socket c) hdr = (9, s1)"
    using assms(1) send_sock_all [of hdr "socket c"] l1 by (simp add: s1_def)
  have s2: "send_sock s1 p = (int (length p), s1\<lparr>tx := tx s1 @ p, tx_room := tx_room s1 - length p\<rparr>)"
    using assms(1) send_sock_all [of p s1] by (simp add: s1_def)
  have z: "0 < len \<longleftrightarrow> p \<noteq> []"
    using assms(2) by (simp add: word_greater_zero_iff unat_eq_0 [symmetric])
  show ?thesis
  proof (cases "p = []")
    case True
    then show ?thesis
      using s1 z by (simp add: http2_send_frame_def hdr_def [symmetric] s1_def)
  next
    case False
    then show ?thesis
      using s1 s2 z assms(2)
      by (simp add: http2_send_frame_def hdr_def [symmetric] s1_def)
  qed
qed

lemma http2_send_settings_default:
  assumes "local_settings c = default_settings" and "45 \<le> tx_room (socket c)"
  shows "http2_send_settings (Some c) 0
           = (0, Some (c\<lparr>socket := (socket c)\<lparr>tx := tx (socket c) @ initial_settings_frame,
                                              tx_room := tx_room (socket c) - 45\<rparr>\<rparr>))"
proof -
  define pay where "pay = drop 9 initial_settings_frame"
  have l2: "length pay = 36"
    by (simp add: pay_def length_initial_settings_frame)
  have hp: "frame_header_bytes HTTP2_FRAME_SETTINGS HTTP2_FLAG_NONE 0 36 @ pay = initial_settings_frame"
    by (simp add: settings_header_bytes pay_def)
  have p: "setting_entry HTTP2_SETTINGS_HEADER_TABLE_SIZE (default_settings ! 1)
                 @ setting_entry HTTP2_SETTINGS_ENABLE_PUSH (default_settings ! 2)
                 @ setting_entry HTTP2_SETTINGS_MAX_CONCURRENT_STREAMS (default_settings ! 3)
                 @ setting_entry HTTP2_SETTINGS_INITIAL_WINDOW_SIZE (default_settings ! 4)
                 @ setting_entry HTTP2_SETTINGS_MAX_FRAME_SIZE (default_settings ! 5)
                 @ setting_entry HTTP2_SETTINGS_MAX_HEADER_LIST_SIZE (default_settings ! 6) = pay"
    unfolding pay_def by (rule settings_payload_default)
  have "http2_send_settings (Some c) 0
          = http2_send_frame (Some c) HTTP2_FRAME_SETTINGS HTTP2_FLAG_NONE 0 (Some pay) 36"
    unfolding http2_send_settings_def
    by (simp only: option.case assms(1) p Let_def l2 simp_thms if_False) simp
  also have "\<dots> = (0, Some (c\<lparr>socket := (socket c)
                \<lparr>tx := tx (socket c) @ frame_header_bytes HTTP2_FRAME_SETTINGS HTTP2_FLAG_NONE 0 36 @ pay,
                 tx_room := tx_room (socket c) - (9 + length pay)\<rparr>\<rparr>))"
    by (rule http2_send_frame_payload) (simp_all add: l2 assms(2))
  finally show ?thesis
    by (simp add: hp l2)
qed

lemma recv_sock_preface:
  assumes "take 24 (rx s) = HTTP2_PREFACE"
  shows "recv_sock s 24 peek
           = (24, HTTP2_PREFACE, if peek then s else s\<lparr>rx := drop 24 (rx s)\<rparr>)"
proof -
  have "rx s \<noteq> []"
  proof
    assume "rx s = []"
    with assms have "HTTP2_PREFACE = []" by simp
    with length_HTTP2_PREFACE show False by simp
  qed
  moreover have "length (take 24 (rx s)) = 24"
    using assms length_HTTP2_PREFACE by simp
  ultimately show ?thesis
    using assms by (simp add: recv_sock_def Let_def del: length_take)
qed

section \<open>The HTTP/2 handshake\<close>

text \<open>
  Called while the preface is still pending on the socket of a freshly created
  connection, \<open>http2_handle_connection\<close> consumes exactly the preface and writes exactly
  one frame, the SETTINGS frame with the six default values; it reads nothing after the
  preface and writes nothing after that frame. This is what the call from
  \<open>handle_client_data\<close> is written to achieve.
\<close>

lemma initial_settings_after_preface:
  assumes "take 24 (rx s) = HTTP2_PREFACE" and "45 \<le> tx_room s"
  shows "http2_handle_connection (Some (http2_connection_create s))
           = (0, Some ((http2_connection_create s)
                \<lparr>socket := s\<lparr>rx := drop 24 (rx s), tx := tx s @ initial_settings_frame,
                               tx_room := tx_room s - 45\<rparr>,
                 is_http2 := 1, preface_received := 1\<rparr>))"
proof -
  let ?c1 = "(http2_connection_create s)\<lparr>socket := s\<lparr>rx := drop 24 (rx s)\<rparr>,
               is_http2 := 1, preface_received := 1\<rparr>"
  have "http2_send_settings (Some ?c1) 0
          = (0, Some (?c1\<lparr>socket := (socket ?c1)\<lparr>tx := tx (socket ?c1) @ initial_settings_frame,
                                             tx_room := tx_room (socket ?c1) - 45\<rparr>\<rparr>))"
    by (rule http2_send_settings_default) (simp_all add: http2_connection_create_def assms(2))
  then show ?thesis
    unfolding http2_handle_connection_def
    by (simp add: recv_sock_preface [OF assms(1)] HTTP2_PREFACE_LEN_def
        http2_connection_create_def)
qed

lemma handle_client_data_socket_drains:
  assumes "rx s \<noteq> []" and "length buf + length (rx s) < MAX_REQUEST_SIZE"
    and "take 24 (buf @ rx s) = HTTP2_PREFACE"
  shows "handle_client_data_socket buf s = Some (-1, s\<lparr>rx := []\<rparr>)"
proof -
  have all: "take (MAX_REQUEST_SIZE - length buf - 1) (rx s) = rx s"
    using assms(2) by simp
  have r: "recv_sock s (MAX_REQUEST_SIZE - length buf - 1) False
             = (int (length (rx s)), rx s, s\<lparr>rx := []\<rparr>)"
    using assms(1,2) by (simp add: recv_sock_def Let_def)
  have l: "24 \<le> length (buf @ rx s)"
  proof (rule ccontr)
    assume "\<not> 24 \<le> length (buf @ rx s)"
    then have "length (take 24 (buf @ rx s)) < 24" by simp
    with assms(3) length_HTTP2_PREFACE show False by simp
  qed
  have h: "http2_handle_connection (Some (http2_connection_create (s\<lparr>rx := []\<rparr>)))
             = (-1, Some (http2_connection_create (s\<lparr>rx := []\<rparr>)))"
    by (simp add: http2_handle_connection_def recv_sock_def http2_connection_create_def)
  have "0 < length (rx s)"
    using assms(1) by simp
  then show ?thesis
    unfolding handle_client_data_socket_def r
    using assms(3) l h by (simp add: HTTP2_PREFACE_LEN_def http2_connection_create_def)
qed

text \<open>
  Claim C2 fails on the code. When a client sends the preface followed by its empty
  SETTINGS frame, \<open>handle_client_data\<close> has read all of it into the connection's buffer
  before it calls \<open>http2_handle_connection\<close>; the peek of that function then finds
  nothing pending, so it returns \<open>-1\<close> and the server writes no byte: no SETTINGS frame
  with the six defaults, and no SETTINGS frame with the ACK flag.
\<close>

theorem preface_consumed_before_peek:
  "handle_client_data_socket []
     \<lparr>rx = HTTP2_PREFACE @ [0, 0, 0, 4, 0, 0, 0, 0, 0], tx = [], tx_room = 65536\<rparr>
     = Some (-1, \<lparr>rx = [], tx = [], tx_room = 65536\<rparr>)"
proof -
  have "handle_client_data_socket []
          \<lparr>rx = HTTP2_PREFACE @ [0, 0, 0, 4, 0, 0, 0, 0, 0], tx = [], tx_room = 65536\<rparr>
        = Some (-1, \<lparr>rx = HTTP2_PREFACE @ [0, 0, 0, 4, 0, 0, 0, 0, 0], tx = [],
                      tx_room = 65536\<rparr>\<lparr>rx := []\<rparr>)"
    by (rule handle_client_data_socket_drains)
       (simp_all add: length_HTTP2_PREFACE MAX_REQUEST_SIZE_def)
  then show ?thesis by simp
qed

section \<open>Route matching\<close>

lemma path_segments_Nil: "path_segments [] = []"
  by (subst path_segments.simps) simp

lemma path_segments_Nil_iff: "path_segments s = [] \<longleftrightarrow> s = []"
  by (subst path_segments.simps) simp

lemma take_segment_len: "take (segment_len s) s = takeWhile (\<lambda>c. c \<noteq> CHR ''/'') s"
  by (simp add: segment_len_def takeWhile_eq_take [symmetric])

lemma first_segment_param:
  assumes "s \<noteq> []"
  shows "(take (segment_len s) s \<noteq> [] \<and> hd (take (segment_len s) s) = CHR '':'')
           \<longleftrightarrow> hd s = CHR '':''"
  using assms by (cases s) (auto simp add: take_segment_len)

lemma first_segment_equal:
  "take (segment_len a) a = take (segment_len b) b
     \<longleftrightarrow> segment_len a = segment_len b \<and> take (segment_len a) a = take (segment_len a) b"
proof
  assume e: "take (segment_len a) a = take (segment_len b) b"
  then have "takeWhile (\<lambda>c. c \<noteq> CHR ''/'') a = takeWhile (\<lambda>c. c \<noteq> CHR ''/'') b"
    by (simp only: take_segment_len)
  then have "segment_len a = segment_len b"
    by (simp only: segment_len_def)
  with e show "segment_len a = segment_len b \<and> take (segment_len a) a = take (segment_len a) b"
    by simp
next
  assume "segment_len a = segment_len b \<and> take (segment_len a) a = take (segment_len a) b"
  then show "take (segment_len a) a = take (segment_len b) b"
    by metis
qed

lemma match_segments_list_all2:
  "match_segments pattern_ptr path_ptr
     = list_all2 segment_matches (path_segments pattern_ptr) (path_segments path_ptr)"
proof (induction pattern_ptr path_ptr rule: match_segments.induct)
  case (1 pattern_ptr path_ptr)
  show ?case
  proof (cases "pattern_ptr \<noteq> [] \<and> path_ptr \<noteq> []")
    case False
    then show ?thesis
      by (subst match_segments.simps) (auto simp add: path_segments_Nil path_segments_Nil_iff)
  next
    case True
    let ?pl = "segment_len pattern_ptr" and ?ql = "segment_len path_ptr"
    let ?bad = "hd pattern_ptr \<noteq> CHR '':''
                  \<and> (?pl \<noteq> ?ql \<or> take ?pl pattern_ptr \<noteq> take ?pl path_ptr)"
    have seg: "segment_matches (take ?pl pattern_ptr) (take ?ql path_ptr) \<longleftrightarrow> \<not> ?bad"
      using True first_segment_param [of pattern_ptr] first_segment_equal [of pattern_ptr path_ptr]
      by (auto simp add: segment_matches_def)
    have ps: "path_segments pattern_ptr
                = take ?pl pattern_ptr # path_segments (skip_slash (drop ?pl pattern_ptr))"
      using True by (subst path_segments.simps) simp
    have qs: "path_segments path_ptr
                = take ?ql path_ptr # path_segments (skip_slash (drop ?ql path_ptr))"
      using True by (subst path_segments.simps) simp
    show ?thesis
    proof (cases ?bad)
      case bad: True
      have "\<not> match_segments pattern_ptr path_ptr"
        using True bad by (subst match_segments.simps) (simp add: Let_def)
      moreover have "\<not> segment_matches (take ?pl pattern_ptr) (take ?ql path_ptr)"
        using seg bad by blast
      then have "\<not> list_all2 segment_matches (path_segments pattern_ptr) (path_segments path_ptr)"
        by (simp add: ps qs)
      ultimately show ?thesis by simp
    next
      case good: False
      have "match_segments pattern_ptr path_ptr
              = match_segments (skip_slash (drop ?pl pattern_ptr)) (skip_slash (drop ?ql path_ptr))"
        using True good by (subst match_segments.simps) (auto simp add: Let_def)
      also have "\<dots> = list_all2 segment_matches
                          (path_segments (skip_slash (drop ?pl pattern_ptr)))
                          (path_segments (skip_slash (drop ?ql path_ptr)))"
        using "1.IH" [OF True refl refl] good by blast
      also have "\<dots> = list_all2 segment_matches (path_segments pattern_ptr) (path_segments path_ptr)"
      proof -
        have "segment_matches (take ?pl pattern_ptr) (take ?ql path_ptr)"
          using seg good by blast
        then show ?thesis
          by (simp add: ps qs)
      qed
      finally show ?thesis .
    qed
  qed
qed

text \<open>
  Claim C6, as amended. \<open>http_route_matches\<close> succeeds exactly when the methods are
  equal and either the pattern is byte-equal to the path, or the pattern contains a
  \<open>':'\<close> and, after one leading \<open>'/'\<close> is stripped from both, pattern and path have
  the same number of segments and match segment by segment: a literal segment must be
  byte-equal to the path segment, a segment beginning with \<open>':'\<close> matches any single
  path segment, an empty one included. Pattern and path must run out of segments
  together; a final \<open>'/'\<close> on either side opens no further segment.
\<close>

theorem route_matches_characterisation:
  "http_route_matches route m p
     \<longleftrightarrow> method_route route = m
          \<and> (path route = p
               \<or> (CHR '':'' \<in> set (path route)
                    \<and> list_all2 segment_matches
                          (path_segments (skip_slash (path route)))
                          (path_segments (skip_slash p))))"
  by (auto simp add: http_route_matches_def match_segments_list_all2)

theorem route_matches_characterisation_witness:
  "http_route_matches \<lparr>method_route = HTTP_METHOD_GET, path = ''/api/users/:id'', handler = None\<rparr>
     HTTP_METHOD_GET ''/api/users/42''
   \<and> path_segments (skip_slash ''/api/users/:id'') = [''api'', ''users'', '':id'']
   \<and> path_segments (skip_slash ''/api/users/42'') = [''api'', ''users'', ''42'']"
proof -
  have a: "path_segments (skip_slash ''/api/users/:id'') = [''api'', ''users'', '':id'']"
    by (simp add: path_segments.simps segment_len_def)
  have b: "path_segments (skip_slash ''/api/users/42'') = [''api'', ''users'', ''42'']"
    by (simp add: path_segments.simps segment_len_def)
  have "http_route_matches \<lparr>method_route = HTTP_METHOD_GET, path = ''/api/users/:id'', handler = None\<rparr>
     HTTP_METHOD_GET ''/api/users/42''"
    unfolding route_matches_characterisation
    using a b by (simp add: segment_matches_def)
  with a b show ?thesis by blast
qed

text \<open>
  The claim as stated fails in its last part: the pattern \<open>/a/:id/b\<close> matches the path
  \<open>/a//b\<close>, and \<open>id\<close> is bound to the empty string.
\<close>

theorem param_matches_empty_segment_counterexample:
  "http_route_matches \<lparr>method_route = HTTP_METHOD_GET, path = ''/a/:id/b'', handler = None\<rparr>
     HTTP_METHOD_GET ''/a//b''
   \<and> path_params (http_route_extract_params
         \<lparr>method_route = HTTP_METHOD_GET, path = ''/a/:id/b'', handler = None\<rparr> ''/a//b''
         http_request_create) = [(''id'', [])]"
  by (simp add: http_route_matches_def match_segments.simps segment_len_def
      http_route_extract_params_def extract_segments.simps http_request_create_def
      http_request_add_path_param_def Let_def)

section \<open>Dispatch\<close>

lemma find_route_Some:
  "find_route rs m p i = Some k
     \<longleftrightarrow> i \<le> k \<and> k < length rs \<and> http_route_matches (rs ! k) m p
          \<and> (\<forall>j. i \<le> j \<and> j < k \<longrightarrow> \<not> http_route_matches (rs ! j) m p)"
proof (induction rs m p i rule: find_route.induct)
  case (1 rs m p i)
  show ?case
  proof (cases "i < length rs")
    case False
    then show ?thesis
      by (subst find_route.simps) auto
  next
    case True
    show ?thesis
    proof (cases "http_route_matches (rs ! i) m p")
      case yes: True
      have "find_route rs m p i = Some i"
        using True yes by (subst find_route.simps) simp
      moreover have "(i \<le> k \<and> k < length rs \<and> http_route_matches (rs ! k) m p
          \<and> (\<forall>j. i \<le> j \<and> j < k \<longrightarrow> \<not> http_route_matches (rs ! j) m p)) \<longleftrightarrow> k = i"
      proof
        assume l: "i \<le> k \<and> k < length rs \<and> http_route_matches (rs ! k) m p
          \<and> (\<forall>j. i \<le> j \<and> j < k \<longrightarrow> \<not> http_route_matches (rs ! j) m p)"
        show "k = i"
        proof (rule ccontr)
          assume "k \<noteq> i"
          with l have "i \<le> i \<and> i < k" by simp
          with l have "\<not> http_route_matches (rs ! i) m p" by blast
          with yes show False by simp
        qed
      next
        assume "k = i"
        with True yes show "i \<le> k \<and> k < length rs \<and> http_route_matches (rs ! k) m p
          \<and> (\<forall>j. i \<le> j \<and> j < k \<longrightarrow> \<not> http_route_matches (rs ! j) m p)"
          by auto
      qed
      ultimately show ?thesis by auto
    next
      case no: False
      have "find_route rs m p i = find_route rs m p (i + 1)"
        using True no by (subst find_route.simps) simp
      moreover have "(i \<le> k \<and> k < length rs \<and> http_route_matches (rs ! k) m p
          \<and> (\<forall>j. i \<le> j \<and> j < k \<longrightarrow> \<not> http_route_matches (rs ! j) m p))
        \<longleftrightarrow> (i + 1 \<le> k \<and> k < length rs \<and> http_route_matches (rs ! k) m p
          \<and> (\<forall>j. i + 1 \<le> j \<and> j < k \<longrightarrow> \<not> http_route_matches (rs ! j) m p))"
        using no by (metis Suc_eq_plus1 Suc_leI le_neq_implies_less Suc_leD not_less_eq_eq)
      ultimately show ?thesis
        using "1.IH" [OF True no] by simp
    qed
  qed
qed

lemma find_route_None:
  "find_route rs m p i = None
     \<longleftrightarrow> (\<forall>j. i \<le> j \<and> j < length rs \<longrightarrow> \<not> http_route_matches (rs ! j) m p)"
proof
  assume n: "find_route rs m p i = None"
  show "\<forall>j. i \<le> j \<and> j < length rs \<longrightarrow> \<not> http_route_matches (rs ! j) m p"
  proof (rule ccontr)
    assume "\<not> ?thesis"
    then have ex: "\<exists>j. i \<le> j \<and> j < length rs \<and> http_route_matches (rs ! j) m p"
      by blast
    define k where "k = (LEAST j. i \<le> j \<and> j < length rs \<and> http_route_matches (rs ! j) m p)"
    have k: "i \<le> k \<and> k < length rs \<and> http_route_matches (rs ! k) m p"
      unfolding k_def using ex by (rule LeastI_ex)
    have "\<forall>j. i \<le> j \<and> j < k \<longrightarrow> \<not> http_route_matches (rs ! j) m p"
    proof (intro allI impI)
      fix j assume j: "i \<le> j \<and> j < k"
      show "\<not> http_route_matches (rs ! j) m p"
      proof
        assume "http_route_matches (rs ! j) m p"
        with j k have "k \<le> j"
          unfolding k_def by (intro Least_le) auto
        with j show False by simp
      qed
    qed
    with k have "find_route rs m p i = Some k"
      by (simp add: find_route_Some)
    with n show False by simp
  qed
next
  assume a: "\<forall>j. i \<le> j \<and> j < length rs \<longrightarrow> \<not> http_route_matches (rs ! j) m p"
  show "find_route rs m p i = None"
  proof (cases "find_route rs m p i")
    case None
    then show ?thesis .
  next
    case (Some k)
    then show ?thesis
      using a by (auto simp add: find_route_Some)
  qed
qed

text \<open>
  Claim C5. For every route table, method and path, the dispatch step selects the
  first route in registration order that \<open>http_route_matches\<close> accepts: when route \<open>k\<close>
  matches and no earlier route does, the lookup yields \<open>k\<close>, the only handler called is
  that of route \<open>k\<close> (none when its handler is NULL), and the response is what that
  handler makes of a fresh response; no handler of a later route is called. When no
  route matches, no handler is called.
\<close>

theorem dispatch_first_match:
  "(k < length (routes server)
      \<and> http_route_matches (routes server ! k) (req_method request) (req_path request)
      \<and> (\<forall>j<k. \<not> http_route_matches (routes server ! j) (req_method request) (req_path request))
    \<longrightarrow> find_route (routes server) (req_method request) (req_path request) 0 = Some k
        \<and> fst (snd (dispatch_request server fs request))
            = (if handler (routes server ! k) = None then [] else [k])
        \<and> (\<forall>h. handler (routes server ! k) = Some h
              \<longrightarrow> fst (dispatch_request server fs request)
                    = h (http_route_extract_params (routes server ! k) (req_path request) request)
                        http_response_create))
   \<and> ((\<forall>j<length (routes server).
          \<not> http_route_matches (routes server ! j) (req_method request) (req_path request))
      \<longrightarrow> fst (snd (dispatch_request server fs request)) = [])"
proof (intro conjI impI)
  assume a: "k < length (routes server)
      \<and> http_route_matches (routes server ! k) (req_method request) (req_path request)
      \<and> (\<forall>j<k. \<not> http_route_matches (routes server ! j) (req_method request) (req_path request))"
  then show f: "find_route (routes server) (req_method request) (req_path request) 0 = Some k"
    by (simp add: find_route_Some)
  show "fst (snd (dispatch_request server fs request))
            = (if handler (routes server ! k) = None then [] else [k])"
    using f by (auto simp add: dispatch_request_def Let_def split: prod.splits option.splits)
  show "\<forall>h. handler (routes server ! k) = Some h
              \<longrightarrow> fst (dispatch_request server fs request)
                    = h (http_route_extract_params (routes server ! k) (req_path request) request)
                        http_response_create"
    using f by (auto simp add: dispatch_request_def Let_def)
next
  assume "\<forall>j<length (routes server).
          \<not> http_route_matches (routes server ! j) (req_method request) (req_path request)"
  then have "find_route (routes server) (req_method request) (req_path request) 0 = None"
    by (simp add: find_route_None)
  then show "fst (snd (dispatch_request server fs request)) = []"
    by (auto simp add: dispatch_request_def Let_def split: prod.splits)
qed


theorem dispatch_first_match_witness:
  "0 < length (routes (snd (http_server_add_route (snd (http_server_add_route
          (http_server_create None 8080)
          HTTP_METHOD_GET ''/x/:id'' (Some (\<lambda>req resp. http_response_set_text resp ''first''))))
          HTTP_METHOD_GET ''/x/7'' (Some (\<lambda>req resp. http_response_set_text resp ''second'')))))
   \<and> http_route_matches (routes (snd (http_server_add_route (snd (http_server_add_route
          (http_server_create None 8080)
          HTTP_METHOD_GET ''/x/:id'' (Some (\<lambda>req resp. http_response_set_text resp ''first''))))
          HTTP_METHOD_GET ''/x/7'' (Some (\<lambda>req resp. http_response_set_text resp ''second'')))) ! 0)
        HTTP_METHOD_GET ''/x/7''
   \<and> http_route_matches (routes (snd (http_server_add_route (snd (http_server_add_route
          (http_server_create None 8080)
          HTTP_METHOD_GET ''/x/:id'' (Some (\<lambda>req resp. http_response_set_text resp ''first''))))
          HTTP_METHOD_GET ''/x/7'' (Some (\<lambda>req resp. http_response_set_text resp ''second'')))) ! 1)
        HTTP_METHOD_GET ''/x/7''
   \<and> fst (snd (dispatch_request (snd (http_server_add_route (snd (http_server_add_route
          (http_server_create None 8080)
          HTTP_METHOD_GET ''/x/:id'' (Some (\<lambda>req resp. http_response_set_text resp ''first''))))
          HTTP_METHOD_GET ''/x/7'' (Some (\<lambda>req resp. http_response_set_text resp ''second''))))
        (\<lambda>p. None)
        (http_request_create\<lparr>req_method := HTTP_METHOD_GET, req_path := ''/x/7''\<rparr>))) = [0]"
proof -
  define srv where "srv = snd (http_server_add_route (snd (http_server_add_route
          (http_server_create None 8080)
          HTTP_METHOD_GET ''/x/:id'' (Some (\<lambda>req resp. http_response_set_text resp ''first''))))
          HTTP_METHOD_GET ''/x/7'' (Some (\<lambda>req resp. http_response_set_text resp ''second'')))"
  define req where "req = http_request_create\<lparr>req_method := HTTP_METHOD_GET, req_path := ''/x/7''\<rparr>"
  have rs: "routes srv =
      [\<lparr>method_route = HTTP_METHOD_GET, path = ''/x/:id'',
        handler = Some (\<lambda>req resp. http_response_set_text resp ''first'')\<rparr>,
       \<lparr>method_route = HTTP_METHOD_GET, path = ''/x/7'',
        handler = Some (\<lambda>req resp. http_response_set_text resp ''second'')\<rparr>]"
    by (simp add: srv_def http_server_add_route_def http_server_create_def)
  have rq: "req_method req = HTTP_METHOD_GET" "req_path req = ''/x/7''"
    by (simp_all add: req_def http_request_create_def)
  have l: "0 < length (routes srv)"
    by (simp add: rs)
  have m0: "http_route_matches (routes srv ! 0) HTTP_METHOD_GET ''/x/7''"
    by (simp add: rs http_route_matches_def match_segments.simps segment_len_def Let_def)
  have m1: "http_route_matches (routes srv ! 1) HTTP_METHOD_GET ''/x/7''"
    by (simp add: rs http_route_matches_def)
  have "0 < length (routes srv)
      \<and> http_route_matches (routes srv ! 0) (req_method req) (req_path req)
      \<and> (\<forall>j<0. \<not> http_route_matches (routes srv ! j) (req_method req) (req_path req))"
    using l m0 by (simp add: rq)
  with dispatch_first_match [of 0 srv req "\<lambda>p. None"]
  have "fst (snd (dispatch_request srv (\<lambda>p. None) req))
            = (if handler (routes srv ! 0) = None then [] else [0])"
    by blast
  then have "fst (snd (dispatch_request srv (\<lambda>p. None) req)) = [0]"
    by (simp add: rs)
  with l m0 m1 show ?thesis
    unfolding srv_def req_def by blast
qed

section \<open>Default response headers\<close>

lemma headers_apply_call:
  "headers (apply_call r c) = headers r @ appended_headers c"
  by (cases c)
     (simp_all add: http_response_add_header_def http_response_set_status_def
        http_response_set_body_def http_response_set_json_def http_response_set_text_def)

lemma headers_foldl_apply_call:
  "headers (foldl apply_call r cs) = headers r @ concat (map appended_headers cs)"
  by (induction cs arbitrary: r) (simp_all add: headers_apply_call)

lemma headers_http_response_create:
  "headers http_response_create
     = [(''Server'', ''Equinox/1.0 (HTTP/1.1, HTTP/2)''), (''Connection'', ''close'')]"
  by (simp add: http_response_create_def http_response_add_header_def)

lemma headers_terminated_apply_call:
  assumes "headers_terminated r"
    and "length (headers r) + length (appended_headers c) \<le> INITIAL_HEADER_CAPACITY"
  shows "headers_terminated (apply_call r c)"
  using assms
  by (cases c)
     (simp_all add: http_response_add_header_def http_response_set_status_def
        http_response_set_body_def http_response_set_json_def http_response_set_text_def)

lemma headers_terminated_foldl_apply_call:
  assumes "headers_terminated r"
    and "length (headers r) + length (concat (map appended_headers cs)) \<le> INITIAL_HEADER_CAPACITY"
  shows "headers_terminated (foldl apply_call r cs)"
  using assms
proof (induction cs arbitrary: r)
  case Nil
  then show ?case by simp
next
  case (Cons c cs)
  have "headers_terminated (apply_call r c)"
    using Cons.prems by (intro headers_terminated_apply_call) simp_all
  moreover have "length (headers (apply_call r c)) + length (concat (map appended_headers cs))
                   \<le> INITIAL_HEADER_CAPACITY"
    using Cons.prems(2) by (simp add: headers_apply_call)
  ultimately show ?case
    using Cons.IH [of "apply_call r c"] by simp
qed

lemma headers_terminated_http_response_create:
  "headers_terminated http_response_create"
  by (simp add: http_response_create_def http_response_add_header_def)

text \<open>
  Claim C4, as amended. Every response made by \<open>http_response_create\<close> carries the
  headers \<open>Server: Equinox/1.0 (HTTP/1.1, HTTP/2)\<close> and \<open>Connection: close\<close> as its first
  two headers, and whatever the handler does through the response functions leaves
  them there: each call only appends, so the number of headers is two plus the number
  of headers appended, and a \<open>Server\<close> or \<open>Connection\<close> header set by the handler is
  carried in addition to the default, not instead of it. As long as every header is
  stored with its terminator, which is always so while the response has at most ten
  headers, the headers are exactly the two defaults followed by the appended headers in
  call order.
\<close>

theorem default_headers_kept:
  "take 2 (headers (foldl apply_call http_response_create calls))
     = [(''Server'', ''Equinox/1.0 (HTTP/1.1, HTTP/2)''), (''Connection'', ''close'')]
   \<and> length (headers (foldl apply_call http_response_create calls))
     = 2 + length (concat (map appended_headers calls))
   \<and> (length (concat (map appended_headers calls)) \<le> 8
        \<longrightarrow> headers_terminated (foldl apply_call http_response_create calls))
   \<and> (headers_terminated (foldl apply_call http_response_create calls)
        \<longrightarrow> headers (foldl apply_call http_response_create calls)
            = [(''Server'', ''Equinox/1.0 (HTTP/1.1, HTTP/2)''), (''Connection'', ''close'')]
                @ concat (map appended_headers calls))"
proof (intro conjI impI)
  show "take 2 (headers (foldl apply_call http_response_create calls))
     = [(''Server'', ''Equinox/1.0 (HTTP/1.1, HTTP/2)''), (''Connection'', ''close'')]"
    by (simp add: headers_foldl_apply_call headers_http_response_create)
  show "length (headers (foldl apply_call http_response_create calls))
     = 2 + length (concat (map appended_headers calls))"
    by (simp add: headers_foldl_apply_call headers_http_response_create)
  show "headers (foldl apply_call http_response_create calls)
            = [(''Server'', ''Equinox/1.0 (HTTP/1.1, HTTP/2)''), (''Connection'', ''close'')]
                @ concat (map appended_headers calls)"
    by (simp add: headers_foldl_apply_call headers_http_response_create)
next
  assume "length (concat (map appended_headers calls)) \<le> 8"
  then show "headers_terminated (foldl apply_call http_response_create calls)"
    by (intro headers_terminated_foldl_apply_call)
       (simp_all add: headers_terminated_http_response_create headers_http_response_create
          INITIAL_HEADER_CAPACITY_def)
qed

theorem default_headers_kept_witness:
  "length (concat (map appended_headers
       [Add_header ''Server'' ''mine'', Set_status 404, Set_text ''gone''])) \<le> 8
   \<and> headers_terminated (foldl apply_call http_response_create
              [Add_header ''Server'' ''mine'', Set_status 404, Set_text ''gone''])
   \<and> headers (foldl apply_call http_response_create
              [Add_header ''Server'' ''mine'', Set_status 404, Set_text ''gone''])
     = [(''Server'', ''Equinox/1.0 (HTTP/1.1, HTTP/2)''), (''Connection'', ''close''),
        (''Server'', ''mine''), (''Content-Type'', ''text/plain'')]"
proof -
  define calls where "calls = [Add_header ''Server'' ''mine'', Set_status 404, Set_text ''gone'']"
  have l: "length (concat (map appended_headers calls)) \<le> 8"
    by (simp add: calls_def)
  with default_headers_kept [of calls]
  have t: "headers_terminated (foldl apply_call http_response_create calls)"
    by blast
  with default_headers_kept [of calls]
  have "headers (foldl apply_call http_response_create calls)
            = [(''Server'', ''Equinox/1.0 (HTTP/1.1, HTTP/2)''), (''Connection'', ''close'')]
                @ concat (map appended_headers calls)"
    by blast
  then have h: "headers (foldl apply_call http_response_create calls)
     = [(''Server'', ''Equinox/1.0 (HTTP/1.1, HTTP/2)''), (''Connection'', ''close''),
        (''Server'', ''mine''), (''Content-Type'', ''text/plain'')]"
    by (simp add: calls_def)
  from l t h show ?thesis
    unfolding calls_def by blast
qed

text \<open>
  The claim as stated fails: after the handler has set \<open>Connection: keep-alive\<close>, the
  response carries both that header and the default \<open>Connection: close\<close>, and both are
  serialised.
\<close>

theorem handler_header_not_replaced_counterexample:
  "headers (http_response_add_header http_response_create ''Connection'' ''keep-alive'')
     = [(''Server'', ''Equinox/1.0 (HTTP/1.1, HTTP/2)''), (''Connection'', ''close''),
        (''Connection'', ''keep-alive'')]
   \<and> build_http_response (http_response_add_header http_response_create ''Connection'' ''keep-alive'')
     = Inr (''HTTP/1.1 200 OK'' @ CRLF
            @ ''Server: Equinox/1.0 (HTTP/1.1, HTTP/2)'' @ CRLF
            @ ''Connection: close'' @ CRLF
            @ ''Connection: keep-alive'' @ CRLF
            @ CRLF)"
  by (simp add: http_response_create_def http_response_add_header_def build_http_response_def
      snprintf_append_def show_int_def show_nat.simps HTTP_STATUS_OK_def CRLF_def)

section \<open>Path traversal\<close>

lemma status_set_text: "status (http_response_set_text r t) = status r"
  by (simp add: http_response_set_text_def http_response_set_body_def http_response_add_header_def)

lemma status_set_status: "status (http_response_set_status r st) = st"
  by (simp add: http_response_set_status_def)

text \<open>
  Claim C8. Whenever the static file server is enabled, the URL path starts with the
  registered prefix and the resolved file path contains \<open>..\<close>, \<open>serve_static_file\<close> sets
  the status to 403 and opens no file; the same holds for the whole dispatch step when
  no route matches the request.
\<close>

theorem traversal_blocked:
  assumes "static_enabled server \<noteq> 0"
    and "take (length (static_url_path server)) url_path = static_url_path server"
    and "strstr_found (static_file_path server url_path) ''..''"
  shows "fst (serve_static_file server fs url_path response) = 0
         \<and> status (fst (snd (serve_static_file server fs url_path response))) = HTTP_STATUS_FORBIDDEN
         \<and> snd (snd (serve_static_file server fs url_path response)) = []
         \<and> ((\<forall>j<length (routes server).
                \<not> http_route_matches (routes server ! j) (req_method request) url_path)
              \<longrightarrow> status (fst (dispatch_request server fs (request\<lparr>req_path := url_path\<rparr>)))
                    = HTTP_STATUS_FORBIDDEN
                  \<and> snd (snd (dispatch_request server fs (request\<lparr>req_path := url_path\<rparr>))) = [])"
proof -
  have s: "serve_static_file server fs url_path response
             = (0, http_response_set_text
                     (http_response_set_status response HTTP_STATUS_FORBIDDEN) ''403 Forbidden'', [])"
    for response
    using assms by (simp add: serve_static_file_def)
  have d: "status (fst (dispatch_request server fs (request\<lparr>req_path := url_path\<rparr>)))
             = HTTP_STATUS_FORBIDDEN
           \<and> snd (snd (dispatch_request server fs (request\<lparr>req_path := url_path\<rparr>))) = []"
    if "\<forall>j<length (routes server).
          \<not> http_route_matches (routes server ! j) (req_method request) url_path"
  proof -
    from that have "find_route (routes server) (req_method request) url_path 0 = None"
      by (simp add: find_route_None)
    then show ?thesis
      by (simp add: dispatch_request_def s status_set_text status_set_status)
  qed
  show ?thesis
    using d by (simp add: s status_set_text status_set_status)
qed

theorem traversal_blocked_witness:
  "static_enabled (snd (http_server_add_static_path (http_server_create None 8080)
        ''/'' ''./public'' True)) \<noteq> 0
   \<and> take (length (static_url_path (snd (http_server_add_static_path (http_server_create None 8080)
        ''/'' ''./public'' True)))) ''/../etc/passwd''
       = static_url_path (snd (http_server_add_static_path (http_server_create None 8080)
        ''/'' ''./public'' True))
   \<and> static_file_path (snd (http_server_add_static_path (http_server_create None 8080)
        ''/'' ''./public'' True)) ''/../etc/passwd'' = ''./public/../etc/passwd''
   \<and> status (fst (snd (serve_static_file (snd (http_server_add_static_path
        (http_server_create None 8080) ''/'' ''./public'' True))
        (\<lambda>p. Some ''secret'') ''/../etc/passwd'' http_response_create))) = 403
   \<and> snd (snd (serve_static_file (snd (http_server_add_static_path
        (http_server_create None 8080) ''/'' ''./public'' True))
        (\<lambda>p. Some ''secret'') ''/../etc/passwd'' http_response_create)) = []"
proof -
  define srv where "srv = snd (http_server_add_static_path (http_server_create None 8080)
        ''/'' ''./public'' True)"
  have e: "static_enabled srv \<noteq> 0"
    by (simp add: srv_def http_server_add_static_path_def)
  have p: "take (length (static_url_path srv)) ''/../etc/passwd'' = static_url_path srv"
    by (simp add: srv_def http_server_add_static_path_def)
  have f: "static_file_path srv ''/../etc/passwd'' = ''./public/../etc/passwd''"
    by (simp add: srv_def http_server_add_static_path_def http_server_create_def
        static_file_path_def)
  have d: "strstr_found (static_file_path srv ''/../etc/passwd'') ''..''"
    by (simp add: f)
  from traversal_blocked [OF e p d, of "\<lambda>p. Some ''secret''" http_response_create]
  have "status (fst (snd (serve_static_file srv (\<lambda>p. Some ''secret'') ''/../etc/passwd''
                  http_response_create))) = HTTP_STATUS_FORBIDDEN
        \<and> snd (snd (serve_static_file srv (\<lambda>p. Some ''secret'') ''/../etc/passwd''
                  http_response_create)) = []"
    by blast
  with e p f show ?thesis
    unfolding srv_def by (simp add: HTTP_STATUS_FORBIDDEN_def)
qed

section \<open>Percent-decoding\<close>

lemma url_decode_plus:
  "0 < room \<Longrightarrow> url_decode_loop (CHR ''+'' # rest) room = CHR '' '' # url_decode_loop rest (room - 1)"
  by simp

lemma url_decode_short_escape:
  "0 < room \<Longrightarrow> length rest < 2 \<Longrightarrow> url_decode_loop (CHR ''%'' # rest) room
     = CHR ''%'' # url_decode_loop rest (room - 1)"
  by simp

lemma hex_digit_not_space: "hex_digit c = Some d \<Longrightarrow> \<not> isspace c"
  by (auto simp add: hex_digit_def isspace_def Let_def split: if_splits)

lemma hex_digit_not_sign: "hex_digit c = Some d \<Longrightarrow> c \<noteq> CHR ''-'' \<and> c \<noteq> CHR ''+''"
  by (auto simp add: hex_digit_def Let_def split: if_splits)

lemma strtol16_two_digits:
  assumes "hex_digit a = Some x" and "hex_digit b = Some y"
  shows "strtol16 [a, b] = x * 16 + y"
  using assms hex_digit_not_space [OF assms(1)] hex_digit_not_sign [OF assms(1)]
  by (simp add: strtol16_def)

lemma url_decode_valid_escape:
  assumes "hex_digit a = Some x" and "hex_digit b = Some y" and "0 < room"
  shows "url_decode_loop (CHR ''%'' # a # b # rest) room
           = char_of (x * 16 + y) # url_decode_loop rest (room - 1)"
  using strtol16_two_digits [OF assms(1,2)] assms(3) by simp

text \<open>
  Claim C3 fails on the code. The escape \<open>%zz\<close>, whose two characters are not
  hexadecimal digits, is not left in the output: \<open>url_decode\<close> stores the byte that
  \<open>strtol\<close> returns for \<open>zz\<close>, which is 0, so the decoded string ends there; likewise
  \<open>%4z\<close> becomes the byte 4. For the query string \<open>k=%zz&n=%4z\<close> the request ends up
  with an empty value for \<open>k\<close> and the one-byte value 4 for \<open>n\<close>.
\<close>

theorem url_decode_invalid_escape:
  "url_decode ''%zz'' 512 = [CHR 0x00]
   \<and> url_decode ''%4z'' 512 = [CHR 0x04]
   \<and> query_params (parse_query_string (http_request_create\<lparr>query_string := ''k=%zz&n=%4z''\<rparr>))
       = [(''k'', []), (''n'', [CHR 0x04])]"
  by (simp add: parse_query_string_def http_request_create_def http_request_add_query_param_def
      url_decode_def strtol16_def hex_digit_def isspace_def c_str_def char_of_def)

section \<open>Start and stop order of the supervisor\<close>

text \<open>
  Claim C1, as amended. With both an HTTP server and a Kafka client bound and both
  starts succeeding, \<open>application_run\<close> calls \<open>http_server_start\<close> first, then
  \<open>kafka_client_start\<close>, then enters \<open>http_server_run\<close>: the HTTP server is started
  before the Kafka client, and the event loop is entered after both. On shutdown, that
  is when the loop ends because the signal handler has stopped the HTTP server, the
  calls are exactly: the two starts, the loop, \<open>http_server_stop\<close> by the handler,
  \<open>kafka_client_stop\<close> and a last \<open>http_server_stop\<close>; so the HTTP server is stopped
  before the Kafka client is stopped, and \<open>application_run\<close> returns 0.
\<close>

theorem run_start_stop_order:
  assumes "http_server app = Some s" and "kafka_client app = Some k"
    and "fst (http_server_start s (start_sockets env)) = 0"
    and "fst (kafka_client_start k (thread_fails env)) = 0"
  shows "take 3 (snd (snd (application_run app env)))
           = [Call_http_server_start, Call_kafka_client_start, Call_http_server_run]
         \<and> called_before Call_http_server_start Call_kafka_client_start
               (snd (snd (application_run app env)))
         \<and> (running (http_server_run (snd (http_server_start s (start_sockets env)))
                        (iterations env)) = 0 \<longrightarrow>
               fst (application_run app env) = Some 0
               \<and> snd (snd (application_run app env))
                   = [Call_http_server_start, Call_kafka_client_start, Call_http_server_run,
                      Call_http_server_stop, Call_kafka_client_stop, Call_http_server_stop]
               \<and> called_before Call_http_server_stop Call_kafka_client_stop
                     (snd (snd (application_run app env))))"
proof -
  obtain s' where hs: "http_server_start s (start_sockets env) = (0, s')"
    using assms(3) by (cases "http_server_start s (start_sockets env)") simp
  obtain k' where ks: "kafka_client_start k (thread_fails env) = (0, k')"
    using assms(4) by (cases "kafka_client_start k (thread_fails env)") simp
  show ?thesis
    using assms(1,2) hs ks
    by (auto simp add: application_run_def run_http_loop_def called_before_def Let_def
        split: option.splits prod.splits)
qed

theorem run_start_stop_order_witness:
  "fst (http_server_start (http_server_create None 8080) (Some (3, 4))) = 0
   \<and> fst (kafka_client_start \<lparr>kafka_running = 0, consumers_running = [0]\<rparr> None) = 0
   \<and> running (http_server_run
         (snd (http_server_start (http_server_create None 8080) (Some (3, 4))))
         [(0, [Ev_signal])]) = 0
   \<and> application_run
        \<lparr>app_running = 0, http_server = Some (http_server_create None 8080),
          kafka_client = Some \<lparr>kafka_running = 0, consumers_running = [0]\<rparr>\<rparr>
        \<lparr>start_sockets = Some (3, 4), thread_fails = None, iterations = [(0, [Ev_signal])],
          epoll_fails = False, signal_arrives = False\<rparr>
      = (Some 0,
         \<lparr>app_running = 0,
           http_server = Some ((http_server_create None 8080)
              \<lparr>server_socket := -1, running := 0, epoll_fd := -1, closed_fds := [4, 3]\<rparr>),
           kafka_client = Some \<lparr>kafka_running = 0, consumers_running = [0]\<rparr>\<rparr>,
         [Call_http_server_start, Call_kafka_client_start, Call_http_server_run,
          Call_http_server_stop, Call_kafka_client_stop, Call_http_server_stop])"
  using run_start_stop_order
    [of "\<lparr>app_running = 0, http_server = Some (http_server_create None 8080),
          kafka_client = Some \<lparr>kafka_running = 0, consumers_running = [0]\<rparr>\<rparr>"
        "http_server_create None 8080" "\<lparr>kafka_running = 0, consumers_running = [0]\<rparr>"
        "\<lparr>start_sockets = Some (3, 4), thread_fails = None, iterations = [(0, [Ev_signal])],
          epoll_fails = False, signal_arrives = False\<rparr>"]
  by (simp add: application_run_def run_http_loop_def http_server_start_def
      kafka_client_start_def kafka_client_stop_def http_server_stop_def
      http_server_create_def loop_iteration_def idle_sweep.simps Let_def)

text \<open>
  The claim as stated fails in its first half: in a run that a shutdown signal ends,
  \<open>http_server_start\<close> is the first call and \<open>kafka_client_start\<close> the second, so the
  Kafka client is not started before the HTTP server.
\<close>

theorem kafka_not_started_first_counterexample:
  "snd (snd (application_run
        \<lparr>app_running = 0, http_server = Some (http_server_create None 8080),
          kafka_client = Some \<lparr>kafka_running = 0, consumers_running = [0]\<rparr>\<rparr>
        \<lparr>start_sockets = Some (3, 4), thread_fails = None, iterations = [(0, [Ev_signal])],
          epoll_fails = False, signal_arrives = False\<rparr>))
      = [Call_http_server_start, Call_kafka_client_start, Call_http_server_run,
         Call_http_server_stop, Call_kafka_client_stop, Call_http_server_stop]
   \<and> \<not> called_before Call_kafka_client_start Call_http_server_start
         [Call_http_server_start, Call_kafka_client_start, Call_http_server_run,
          Call_http_server_stop, Call_kafka_client_stop, Call_http_server_stop]"
  by (simp add: application_run_def run_http_loop_def http_server_start_def
      kafka_client_start_def kafka_client_stop_def http_server_stop_def
      http_server_create_def loop_iteration_def idle_sweep.simps called_before_def Let_def)

section \<open>The connection bound\<close>

lemma max_remove_connection [simp]:
  "max_connections (remove_connection server fd) = max_connections server"
  by (simp add: remove_connection_def Let_def split: option.split)

lemma running_remove_connection [simp]:
  "running (remove_connection server fd) = running server"
  by (simp add: remove_connection_def Let_def split: option.split)

lemma length_remove_connection_le:
  "length (connection_states (remove_connection server fd)) \<le> length (connection_states server)"
  by (simp add: length_remove_connection split: option.split)

lemma within_bound_remove_connection:
  "within_bound server \<Longrightarrow> within_bound (remove_connection server fd)"
  using length_remove_connection_le [of server fd] by (simp add: within_bound_def)

lemma within_bound_closed_fds [simp]:
  "within_bound (server\<lparr>closed_fds := c\<rparr>) = within_bound server"
  by (simp add: within_bound_def)

lemma add_connection_bound:
  assumes "within_bound server" and "add_connection server fd now = (r, server')"
  shows "within_bound server' \<and> max_connections server' = max_connections server
         \<and> running server' = running server"
  using assms by (auto simp add: add_connection_def within_bound_def Let_def split: if_splits)

lemma accept_new_connection_bound:
  "within_bound server \<Longrightarrow>
     within_bound (accept_new_connection server now pending)
     \<and> max_connections (accept_new_connection server now pending) = max_connections server"
proof (induction pending arbitrary: server)
  case Nil
  then show ?case by simp
next
  case (Cons a pending)
  obtain r server' where ac: "add_connection server (accepted_fd a) now = (r, server')"
    by (cases "add_connection server (accepted_fd a) now")
  have b: "within_bound server'" and m: "max_connections server' = max_connections server"
    using add_connection_bound [OF Cons.prems ac] by simp_all
  show ?case
  proof (cases "nonblocking_ok a")
    case False
    then show ?thesis
      using Cons.IH [of "server\<lparr>closed_fds := closed_fds server @ [accepted_fd a]\<rparr>"] Cons.prems
      by simp
  next
    case True
    show ?thesis
    proof (cases r)
      case None
      then show ?thesis
        using True ac b m
          Cons.IH [of "server'\<lparr>closed_fds := closed_fds server' @ [accepted_fd a]\<rparr>"]
        by simp
    next
      case (Some conn)
      show ?thesis
      proof (cases "epoll_add_ok a")
        case ok: True
        then show ?thesis
          using True ac Some b m Cons.IH [of server'] by simp
      next
        case bad: False
        then show ?thesis
          using True ac Some m within_bound_remove_connection [OF b, of "accepted_fd a"]
            Cons.IH [of "remove_connection server' (accepted_fd a)"]
          by simp
      qed
    qed
  qed
qed

lemma process_http_request_bound:
  "within_bound server \<Longrightarrow>
     within_bound (process_http_request server conn)
     \<and> max_connections (process_http_request server conn) = max_connections server"
  by (simp add: process_http_request_def within_bound_remove_connection)

lemma handle_client_data_bound:
  assumes "within_bound server"
  shows "within_bound (handle_client_data server fd r now)
         \<and> max_connections (handle_client_data server fd r now) = max_connections server"
proof (cases "connection_index (connection_states server) fd")
  case None
  then show ?thesis
    using assms by (simp add: handle_client_data_def)
next
  case (Some i)
  have u: "within_bound (server\<lparr>connection_states := (connection_states server)[i := c]\<rparr>)" for c
    using assms by (simp add: within_bound_def)
  show ?thesis
  proof (cases r)
    case (Recv_bytes d)
    then show ?thesis
      using Some assms u
      by (simp add: handle_client_data_def Let_def within_bound_remove_connection
          process_http_request_bound)
  next
    case Recv_would_block
    then show ?thesis
      using Some assms by (simp add: handle_client_data_def Let_def)
  next
    case Recv_closed
    then show ?thesis
      using Some assms by (simp add: handle_client_data_def Let_def within_bound_remove_connection)
  qed
qed

lemma idle_sweep_bound:
  "within_bound server \<Longrightarrow>
     within_bound (idle_sweep server now i)
     \<and> max_connections (idle_sweep server now i) = max_connections server"
proof (induction server now i rule: idle_sweep.induct)
  case (1 server now i)
  show ?case
  proof (cases "i < length (connection_states server)")
    case False
    then show ?thesis
      using "1.prems" by (subst (1 2) idle_sweep.simps) simp
  next
    case True
    show ?thesis
    proof (cases "now - last_activity (connection_states server ! i) > 60")
      case idle: True
      have "within_bound (remove_connection server (socket_fd (connection_states server ! i)))"
        using "1.prems" by (rule within_bound_remove_connection)
      from "1.IH"(1) [OF True idle this] show ?thesis
        using True idle by (subst (1 2) idle_sweep.simps) simp
    next
      case active: False
      from "1.IH"(2) [OF True active "1.prems"] show ?thesis
        using True active by (subst (1 2) idle_sweep.simps) simp
    qed
  qed
qed

lemma http_server_stop_bound:
  "within_bound server \<Longrightarrow>
     within_bound (snd (http_server_stop server))
     \<and> max_connections (snd (http_server_stop server)) = max_connections server"
  by (simp add: http_server_stop_def within_bound_def)

lemma process_event_bound:
  "within_bound server \<Longrightarrow>
     within_bound (process_event now server ev)
     \<and> max_connections (process_event now server ev) = max_connections server"
  by (cases ev)
     (simp_all add: accept_new_connection_bound within_bound_remove_connection
        handle_client_data_bound http_server_stop_bound)

lemma foldl_process_event_bound:
  "within_bound server \<Longrightarrow>
     within_bound (foldl (process_event now) server evs)
     \<and> max_connections (foldl (process_event now) server evs) = max_connections server"
proof (induction evs arbitrary: server)
  case Nil
  then show ?case by simp
next
  case (Cons ev evs)
  from process_event_bound [OF Cons.prems, of now ev] Cons.IH [of "process_event now server ev"]
  show ?case by simp
qed

lemma loop_iteration_bound:
  "within_bound server \<Longrightarrow>
     within_bound (loop_iteration server it)
     \<and> max_connections (loop_iteration server it) = max_connections server"
  using foldl_process_event_bound [of server "fst it" "snd it"]
    idle_sweep_bound [of "foldl (process_event (fst it)) server (snd it)" "fst it" 0]
  by (simp add: loop_iteration_def)

lemma http_server_run_bound:
  "within_bound server \<Longrightarrow>
     within_bound (http_server_run server its)
     \<and> max_connections (http_server_run server its) = max_connections server"
proof (induction its arbitrary: server)
  case Nil
  then show ?case by simp
next
  case (Cons it its)
  from loop_iteration_bound [OF Cons.prems, of it] Cons.IH [of "loop_iteration server it"]
  show ?case
    using Cons.prems by simp
qed

lemma accept_over_limit:
  assumes "length (connection_states server) \<ge> max_connections server"
  shows "accept_new_connection server now [a]
           = server\<lparr>closed_fds := closed_fds server @ [accepted_fd a]\<rparr>"
  using assms by (simp add: add_connection_def)

text \<open>
  Claim C9. A server made by \<open>http_server_create\<close> has no connection and
  \<open>max_connections = 1000\<close>, and a successful start changes neither. From any state within
  the bound, every event the loop handles, every prefix of an iteration and every
  number of iterations of \<open>http_server_run\<close> lead to a state within the bound again, with
  \<open>max_connections\<close> unchanged. When the table is full, an accepted socket gets no
  connection record and is closed at once; nothing else in the server changes, so it
  keeps running.
\<close>

theorem connection_bound:
  "within_bound (http_server_create h p)
   \<and> max_connections (http_server_create h p) = 1000
   \<and> within_bound (snd (http_server_start (http_server_create h p) sockets))
   \<and> (within_bound server \<longrightarrow>
        within_bound (process_event now server ev)
        \<and> within_bound (foldl (process_event now) server evs)
        \<and> within_bound (http_server_run server its)
        \<and> max_connections (http_server_run server its) = max_connections server)
   \<and> (length (connection_states server) \<ge> max_connections server \<longrightarrow>
        accept_new_connection server now [a]
          = server\<lparr>closed_fds := closed_fds server @ [accepted_fd a]\<rparr>)"
proof (intro conjI impI)
  show "within_bound (http_server_create h p)"
    by (simp add: within_bound_def http_server_create_def)
  show "max_connections (http_server_create h p) = 1000"
    by (simp add: http_server_create_def)
  show "within_bound (snd (http_server_start (http_server_create h p) sockets))"
    by (simp add: within_bound_def http_server_create_def http_server_start_def
        split: option.split prod.split)
next
  assume b: "within_bound server"
  show "within_bound (process_event now server ev)"
    using process_event_bound [OF b] by simp
  show "within_bound (foldl (process_event now) server evs)"
    using foldl_process_event_bound [OF b] by simp
  show "within_bound (http_server_run server its)"
    using http_server_run_bound [OF b] by simp
  show "max_connections (http_server_run server its) = max_connections server"
    using http_server_run_bound [OF b] by simp
next
  assume "length (connection_states server) \<ge> max_connections server"
  then show "accept_new_connection server now [a]
          = server\<lparr>closed_fds := closed_fds server @ [accepted_fd a]\<rparr>"
    by (rule accept_over_limit)
qed


theorem connection_bound_witness:
  "within_bound ((http_server_create None 8080)\<lparr>running := 1, max_connections := 2\<rparr>)
   \<and> within_bound (http_server_run
         ((http_server_create None 8080)\<lparr>running := 1, max_connections := 2\<rparr>)
         [(0, [Ev_listen [\<lparr>accepted_fd = 5, nonblocking_ok = True, epoll_add_ok = True\<rparr>,
                          \<lparr>accepted_fd = 6, nonblocking_ok = True, epoll_add_ok = True\<rparr>,
                          \<lparr>accepted_fd = 7, nonblocking_ok = True, epoll_add_ok = True\<rparr>]])])
   \<and> map socket_fd (connection_states (http_server_run
         ((http_server_create None 8080)\<lparr>running := 1, max_connections := 2\<rparr>)
         [(0, [Ev_listen [\<lparr>accepted_fd = 5, nonblocking_ok = True, epoll_add_ok = True\<rparr>,
                          \<lparr>accepted_fd = 6, nonblocking_ok = True, epoll_add_ok = True\<rparr>,
                          \<lparr>accepted_fd = 7, nonblocking_ok = True, epoll_add_ok = True\<rparr>]])]))
       = [5, 6]
   \<and> closed_fds (http_server_run
         ((http_server_create None 8080)\<lparr>running := 1, max_connections := 2\<rparr>)
         [(0, [Ev_listen [\<lparr>accepted_fd = 5, nonblocking_ok = True, epoll_add_ok = True\<rparr>,
                          \<lparr>accepted_fd = 6, nonblocking_ok = True, epoll_add_ok = True\<rparr>,
                          \<lparr>accepted_fd = 7, nonblocking_ok = True, epoll_add_ok = True\<rparr>]])])
       = [7]"
proof -
  define srv where "srv = (http_server_create None 8080)\<lparr>running := 1, max_connections := 2\<rparr>"
  define its where "its = [(0::int, [Ev_listen
                         [\<lparr>accepted_fd = 5, nonblocking_ok = True, epoll_add_ok = True\<rparr>,
                          \<lparr>accepted_fd = 6, nonblocking_ok = True, epoll_add_ok = True\<rparr>,
                          \<lparr>accepted_fd = 7, nonblocking_ok = True, epoll_add_ok = True\<rparr>]])]"
  have b: "within_bound srv"
    by (simp add: srv_def within_bound_def http_server_create_def)
  have r: "within_bound (http_server_run srv its)"
    using connection_bound [of None 8080 None srv 0 Ev_signal "[]" its] b by blast
  have c: "map socket_fd (connection_states (http_server_run srv its)) = [5, 6]
           \<and> closed_fds (http_server_run srv its) = [7]"
    by (simp add: srv_def its_def http_server_create_def loop_iteration_def add_connection_def
        idle_sweep.simps Let_def)
  from b r c show ?thesis
    unfolding srv_def its_def by blast
qed

section \<open>Shape of the serialised response\<close>




subsection \<open>Counting blank lines\<close>





subsection \<open>Decimal digits\<close>



lemma show_nat_nonempty: "show_nat n \<noteq> []"
  by (subst show_nat.simps) simp












end
